theory Spec2Isabelle
  imports Complex_Main "HOL-Library.Multiset" "HOL-Library.Sublist"
begin

section \<open>Data model (src/components/notebook.tsx, lines 33-55)\<close>

text \<open>
  A checklist entry \<^verbatim>\<open>{id, text, checked}\<close> and the type \<^verbatim>\<open>Note\<close>. The fields
  a dialog edits (\<^verbatim>\<open>Omit<Note, "id" | "createdAt" | "updatedAt">\<close>) form the parent
  record, so that an object spread \<^verbatim>\<open>{id, createdAt, updatedAt, ...note}\<close> is a record
  with the parent's fields copied. The optional \<^verbatim>\<open>items\<close> is an option: \<open>None\<close> stands
  for an absent (\<^verbatim>\<open>undefined\<close>) property. Timestamps are the ISO strings the code stores.
  A string is a sequence of code units below 256 (ISO 8859-1), one \<open>char\<close> each; text
  with other characters is not represented.
\<close>

record Item =
  item_id :: string
  item_text :: string
  checked :: bool

record NoteFields =
  title :: string
  content :: string
  color :: string
  tags :: "string list"
  items :: "Item list option"

record Note = NoteFields +
  note_id :: string
  createdAt :: string
  updatedAt :: string

definition COLORS :: "string list" where
  "COLORS =
    [''bg-blue-200 border-blue-400'',
     ''bg-green-200 border-green-400'',
     ''bg-yellow-200 border-yellow-400'',
     ''bg-red-200 border-red-400'',
     ''bg-purple-200 border-purple-400'',
     ''bg-pink-200 border-pink-400'']"

text \<open>
  A JavaScript array of notes can hold entries that are no object: \<^verbatim>\<open>splice\<close> inserts
  \<^verbatim>\<open>undefined\<close> when nothing was removed, and \<^verbatim>\<open>JSON.stringify\<close> writes such an
  entry as \<^verbatim>\<open>null\<close>. An array entry is therefore a slot.
\<close>

datatype 'a slot = Undefined | Null | Obj 'a

datatype error = SyntaxError | TypeError

fun is_Obj :: "'a slot \<Rightarrow> bool" where
  "is_Obj (Obj _) = True"
| "is_Obj _ = False"

section \<open>Array.prototype.splice and the reorder mutation (notebook.tsx, lines 157-174)\<close>

text \<open>
  \<^verbatim>\<open>xs.splice(start, deleteCount, ...its)\<close> on integer arguments: a negative start
  counts from the end and stops at 0, a start beyond the end is the length, and the
  delete count is cut to what is left. The result is the array after the call and the
  array of removed entries.
\<close>

definition splice :: "'a list \<Rightarrow> int \<Rightarrow> int \<Rightarrow> 'a list \<Rightarrow> 'a list \<times> 'a list" where
  "splice xs start deleteCount its =
    (let len = int (length xs);
         actualStart = (if start < 0 then max (len + start) 0 else min start len);
         actualDeleteCount = min (max deleteCount 0) (len - actualStart);
         a = nat actualStart;
         d = nat actualDeleteCount
     in (take a xs @ its @ drop (a + d) xs, take d (drop a xs)))"

text \<open>
  \<^verbatim>\<open>const updatedNotes = [...notes];
  const [movedNote] = updatedNotes.splice(fromIndex, 1);
  updatedNotes.splice(toIndex, 0, movedNote);\<close>
  The destructuring \<^verbatim>\<open>[movedNote]\<close> of an empty array binds \<^verbatim>\<open>undefined\<close>.
\<close>

definition moveNote_mutationFn :: "'a slot list \<Rightarrow> int \<Rightarrow> int \<Rightarrow> 'a slot list" where
  "moveNote_mutationFn notes fromIndex toIndex =
    (let (updatedNotes, removed) = splice notes fromIndex 1 [];
         movedNote = (case removed of [] \<Rightarrow> Undefined | x # _ \<Rightarrow> x)
     in fst (splice updatedNotes toIndex 0 [movedNote]))"

section \<open>JSON values\<close>

text \<open>
  The values valid JSON texts denote. A number is given by the rational its literal
  denotes (\<^verbatim>\<open>JSON.parse\<close> takes the nearest double; the program never computes with
  one). An object lists its properties in order.
\<close>

datatype json =
    JNull
  | JBool bool
  | JNumber rat
  | JString string
  | JArray "json list"
  | JObject "(string \<times> json) list"

text \<open>
  What \<^verbatim>\<open>JSON.stringify\<close> writes for a checklist entry, for a note (the properties in the
  order \<^verbatim>\<open>createNote\<close> gives them; an absent \<^verbatim>\<open>items\<close> is left out) and for an array
  entry (\<^verbatim>\<open>undefined\<close> is written as \<^verbatim>\<open>null\<close>).
\<close>

definition item_json :: "Item \<Rightarrow> json" where
  "item_json i =
    JObject [(''id'', JString (item_id i)), (''text'', JString (item_text i)),
             (''checked'', JBool (checked i))]"

definition note_json :: "Note \<Rightarrow> json" where
  "note_json n =
    JObject ([(''id'', JString (note_id n)), (''createdAt'', JString (createdAt n)),
              (''updatedAt'', JString (updatedAt n)), (''title'', JString (title n)),
              (''content'', JString (content n)), (''color'', JString (color n)),
              (''tags'', JArray (map JString (tags n)))] @
             (case items n of None \<Rightarrow> [] | Some its \<Rightarrow> [(''items'', JArray (map item_json its))]))"

fun slot_json :: "Note slot \<Rightarrow> json" where
  "slot_json (Obj n) = note_json n"
| "slot_json _ = JNull"

text \<open>An array entry as it is read back after it was written.\<close>

fun reread :: "'a slot \<Rightarrow> 'a slot" where
  "reread Undefined = Null"
| "reread x = x"

text \<open>
  Reading a value at the types of the data model. A value is a \<^verbatim>\<open>Note\<close> when it is an
  object with exactly the properties of the type, each of its type, in any order; it is
  an array of the query's type \<^verbatim>\<open>Note[]\<close>, with \<^verbatim>\<open>null\<close> entries let through, when it is
  an array of such objects and \<^verbatim>\<open>null\<close>s.
\<close>

definition as_string :: "json \<Rightarrow> string option" where
  "as_string j = (case j of JString t \<Rightarrow> Some t | _ \<Rightarrow> None)"

definition as_bool :: "json \<Rightarrow> bool option" where
  "as_bool j = (case j of JBool b \<Rightarrow> Some b | _ \<Rightarrow> None)"

definition as_strings :: "json \<Rightarrow> string list option" where
  "as_strings j = (case j of JArray es \<Rightarrow> those (map as_string es) | _ \<Rightarrow> None)"

definition has_keys :: "(string \<times> json) list \<Rightarrow> string list \<Rightarrow> bool" where
  "has_keys kvs ks \<longleftrightarrow> distinct (map fst kvs) \<and> set (map fst kvs) = set ks"

definition property :: "(string \<times> json) list \<Rightarrow> string \<Rightarrow> (json \<Rightarrow> 'a option) \<Rightarrow> 'a option" where
  "property kvs k rd = Option.bind (map_of kvs k) rd"

definition as_item :: "json \<Rightarrow> Item option" where
  "as_item j =
    (case j of
       JObject kvs \<Rightarrow>
         if has_keys kvs [''id'', ''text'', ''checked'']
         then Option.bind (property kvs ''id'' as_string) (\<lambda>i.
              Option.bind (property kvs ''text'' as_string) (\<lambda>t.
              Option.bind (property kvs ''checked'' as_bool) (\<lambda>c.
              Some \<lparr>item_id = i, item_text = t, checked = c\<rparr>)))
         else None
     | _ \<Rightarrow> None)"

definition as_items :: "json \<Rightarrow> Item list option" where
  "as_items j = (case j of JArray es \<Rightarrow> those (map as_item es) | _ \<Rightarrow> None)"

definition note_keys :: "string list" where
  "note_keys = [''id'', ''createdAt'', ''updatedAt'', ''title'', ''content'', ''color'', ''tags'']"

definition as_note :: "json \<Rightarrow> Note option" where
  "as_note j =
    (case j of
       JObject kvs \<Rightarrow>
         if has_keys kvs note_keys \<or> has_keys kvs (note_keys @ [''items''])
         then Option.bind (property kvs ''id'' as_string) (\<lambda>i.
              Option.bind (property kvs ''createdAt'' as_string) (\<lambda>c.
              Option.bind (property kvs ''updatedAt'' as_string) (\<lambda>u.
              Option.bind (property kvs ''title'' as_string) (\<lambda>t.
              Option.bind (property kvs ''content'' as_string) (\<lambda>b.
              Option.bind (property kvs ''color'' as_string) (\<lambda>col.
              Option.bind (property kvs ''tags'' as_strings) (\<lambda>tg.
              Option.bind (case map_of kvs ''items'' of
                             None \<Rightarrow> Some None
                           | Some v \<Rightarrow> map_option Some (as_items v)) (\<lambda>its.
              Some \<lparr>title = t, content = b, color = col, tags = tg, items = its,
                    note_id = i, createdAt = c, updatedAt = u\<rparr>))))))))
         else None
     | _ \<Rightarrow> None)"

fun entry_slot :: "json \<Rightarrow> Note slot option" where
  "entry_slot JNull = Some Null"
| "entry_slot j = map_option Obj (as_note j)"

definition as_slots :: "json \<Rightarrow> Note slot list option" where
  "as_slots j = (case j of JArray es \<Rightarrow> those (map entry_slot es) | _ \<Rightarrow> None)"

text \<open>The notes among the entries of a stored array.\<close>

definition notes_in :: "json \<Rightarrow> Note list" where
  "notes_in j = (case j of JArray es \<Rightarrow> List.map_filter as_note es | _ \<Rightarrow> [])"

section \<open>Storage and the notes query (notebook.tsx, lines 87-99)\<close>

text \<open>
  The entry \<^verbatim>\<open>localStorage["notes"]\<close> is a text or absent. The program only tests the
  text for emptiness and hands it to \<^verbatim>\<open>JSON.parse\<close>, so a text is represented by what
  \<^verbatim>\<open>JSON.parse\<close> makes of it: \<open>EmptyText\<close> is the empty string, \<open>Garbage\<close> is any
  non-empty text that is not valid JSON (such as \<^verbatim>\<open>{oops\<close>), and \<open>JsonText v\<close> is a
  valid JSON text, which denotes the value \<open>v\<close>.
  \<^verbatim>\<open>localStorage.setItem\<close> is taken to succeed.
\<close>

datatype stored = EmptyText | Garbage | JsonText json

definition JSON_stringify :: "Note slot list \<Rightarrow> stored" where
  "JSON_stringify xs = JsonText (JArray (map slot_json xs))"

fun JSON_parse :: "stored \<Rightarrow> error + json" where
  "JSON_parse (JsonText v) = Inr v"
| "JSON_parse _ = Inl SyntaxError"

fun truthy :: "stored \<Rightarrow> bool" where
  "truthy EmptyText = False"
| "truthy _ = True"

text \<open>
  \<^verbatim>\<open>const savedNotes = localStorage.getItem("notes");
  return savedNotes ? JSON.parse(savedNotes) : [];\<close>
  There is no \<^verbatim>\<open>try\<close> around the call: the exception of \<^verbatim>\<open>JSON.parse\<close> leaves
  the function. The value \<^verbatim>\<open>JSON.parse\<close> returns is returned as it is.
\<close>

definition queryFn :: "stored option \<Rightarrow> error + json" where
  "queryFn savedNotes =
    (case savedNotes of
       None \<Rightarrow> Inr (JArray [])
     | Some t \<Rightarrow> if truthy t then JSON_parse t else Inr (JArray []))"

text \<open>
  The first fetch of the query, whose data is \<^verbatim>\<open>undefined\<close> (\<open>None\<close>) before and stays so
  when the function throws; \<^verbatim>\<open>const { data: notes = [] } = useQuery(...)\<close>, where the
  default stands in for \<^verbatim>\<open>undefined\<close> only; and the first statement of a render that
  reads the notes, \<^verbatim>\<open>notes.flatMap((note) => note.tags)\<close> (lines 97-99), on any value:
  a value that is no array has no \<^verbatim>\<open>flatMap\<close>, and reading \<^verbatim>\<open>tags\<close> of \<^verbatim>\<open>null\<close>
  throws; a property that is not there reads as \<^verbatim>\<open>undefined\<close> (\<open>None\<close>).
\<close>

definition first_fetch :: "stored option \<Rightarrow> json option" where
  "first_fetch savedNotes = (case queryFn savedNotes of Inr v \<Rightarrow> Some v | Inl e \<Rightarrow> None)"

definition notes_of_data :: "json option \<Rightarrow> json" where
  "notes_of_data d = (case d of None \<Rightarrow> JArray [] | Some v \<Rightarrow> v)"

fun read_tags :: "json \<Rightarrow> json option list" where
  "read_tags (JObject kvs) =
    (case map_of kvs ''tags'' of
       None \<Rightarrow> [None]
     | Some (JArray ts) \<Rightarrow> map Some ts
     | Some t \<Rightarrow> [Some t])"
| "read_tags j = [None]"

definition flatMap_tags :: "json \<Rightarrow> error + json option list" where
  "flatMap_tags v =
    (case v of
       JArray es \<Rightarrow> if JNull \<in> set es then Inl TypeError else Inr (concat (map read_tags es))
     | _ \<Rightarrow> Inl TypeError)"

section \<open>The state of the Notebook component\<close>

text \<open>
  The storage entry, the data of the query \<^verbatim>\<open>["notes"]\<close> (\<open>None\<close> while it is
  \<^verbatim>\<open>undefined\<close>), and the React state \<^verbatim>\<open>newNote\<close>, \<^verbatim>\<open>isModalOpen\<close>, \<^verbatim>\<open>draftId\<close>.
  The input fields \<^verbatim>\<open>newItem\<close>, \<^verbatim>\<open>newTag\<close> and the filter selections never reach a
  write and are left out. The query is declared \<^verbatim>\<open>useQuery<Note[]>\<close>: the state is the
  state of the component while the data of the query is an array of notes, \<^verbatim>\<open>null\<close>s
  (which storage can hold) and \<^verbatim>\<open>undefined\<close>s (which a reorder can insert).
\<close>

record state =
  localStorage :: "stored option"
  data :: "Note slot list option"
  newNote :: NoteFields
  isModalOpen :: bool
  draftId :: "string option"

text \<open>
  \<^verbatim>\<open>const { data: notes = [] } = useQuery(...)\<close>: the component's \<^verbatim>\<open>notes\<close>, where the
  default stands in for \<^verbatim>\<open>undefined\<close>.
\<close>

definition the_notes :: "state \<Rightarrow> Note slot list" where
  "the_notes s = (case data s of None \<Rightarrow> [] | Some v \<Rightarrow> v)"

text \<open>
  A step of the component ends outside the state when code throws, or when the query
  comes to hold a value \<open>v\<close> that is not of its declared type: \<open>Untyped v\<close>. What a render
  then does with \<open>v\<close> starts with \<open>flatMap_tags v\<close>.
\<close>

datatype halt = Throws error | Untyped json

text \<open>
  \<^verbatim>\<open>queryClient.invalidateQueries({ queryKey: ["notes"] })\<close> runs the query function
  again. The query keeps the data it had when the function throws.
\<close>

definition invalidateQueries :: "state \<Rightarrow> halt + state" where
  "invalidateQueries s =
    (case queryFn (localStorage s) of
       Inl e \<Rightarrow> Inr s
     | Inr v \<Rightarrow> (case as_slots v of
                  Some xs \<Rightarrow> Inr (s\<lparr>data := Some xs\<rparr>)
                | None \<Rightarrow> Inl (Untyped v)))"

definition setItem :: "Note slot list \<Rightarrow> state \<Rightarrow> state" where
  "setItem updatedNotes s = s\<lparr>localStorage := Some (JSON_stringify updatedNotes)\<rparr>"

definition emptyNote :: NoteFields where
  "emptyNote = \<lparr>title = [], content = [], color = COLORS ! 0, tags = [], items = Some []\<rparr>"

text \<open>The notes (objects) of an array, and the notes that storage holds.\<close>

fun objects :: "'a slot list \<Rightarrow> 'a list" where
  "objects [] = []"
| "objects (Obj n # xs) = n # objects xs"
| "objects (_ # xs) = objects xs"

definition persisted :: "state \<Rightarrow> Note list" where
  "persisted s = (case queryFn (localStorage s) of Inr v \<Rightarrow> notes_in v | Inl e \<Rightarrow> [])"

text \<open>
  The component renders only when every entry of \<^verbatim>\<open>notes\<close> is an object: each render
  evaluates \<^verbatim>\<open>notes.flatMap((note) => note.tags)\<close> (lines 97-99), which throws on an entry
  that is \<^verbatim>\<open>undefined\<close> or \<^verbatim>\<open>null\<close>.
\<close>

definition renders :: "state \<Rightarrow> bool" where
  "renders s \<longleftrightarrow> list_all is_Obj (the_notes s)"

section \<open>The four mutations (notebook.tsx, lines 101-174)\<close>

text \<open>
  \<^verbatim>\<open>uuidv4()\<close> of the package \<^verbatim>\<open>uuid\<close>: sixteen random bytes, of which the seventh gets
  the version 4 in its high half and the ninth the variant bits \<^verbatim>\<open>10\<close>, written as
  lower-case hexadecimal digits in groups of 8, 4, 4, 4 and 12 with hyphens between.
  The bytes are the argument.
\<close>

definition hex_digit :: "nat \<Rightarrow> char" where
  "hex_digit k = ''0123456789abcdef'' ! (k mod 16)"

definition byte_hex :: "nat \<Rightarrow> string" where
  "byte_hex b = [hex_digit (b div 16), hex_digit b]"

definition hex_of :: "nat list \<Rightarrow> string" where
  "hex_of bs = concat (map byte_hex bs)"

definition uuidv4 :: "nat list \<Rightarrow> string" where
  "uuidv4 rnds =
    (let b = rnds[6 := rnds ! 6 mod 16 + 64, 8 := rnds ! 8 mod 64 + 128]
     in hex_of (take 4 b) @ ''-'' @ hex_of (take 2 (drop 4 b)) @ ''-'' @
        hex_of (take 2 (drop 6 b)) @ ''-'' @ hex_of (take 2 (drop 8 b)) @ ''-'' @
        hex_of (drop 10 b))"

text \<open>
  \<^verbatim>\<open>const newNote = { id: uuidv4(), createdAt: new Date().toISOString(),
    updatedAt: new Date().toISOString(), ...note };
  const updatedNotes = [...notes, newNote];\<close>
  The identifier \<^verbatim>\<open>uuidv4()\<close> returns and the two readings of the clock, in the order
  the object literal takes them, are arguments.
\<close>

definition createNote_mutationFn ::
  "Note slot list \<Rightarrow> NoteFields \<Rightarrow> string \<Rightarrow> string \<Rightarrow> string \<Rightarrow> Note \<times> Note slot list" where
  "createNote_mutationFn ns note uuid now1 now2 =
    (let newNote = \<lparr>title = title note, content = content note, color = color note,
                     tags = tags note, items = items note,
                     note_id = uuid, createdAt = now1, updatedAt = now2\<rparr>;
         updatedNotes = ns @ [Obj newNote]
     in (newNote, updatedNotes))"

text \<open>
  \<^verbatim>\<open>onSuccess\<close> of \<^verbatim>\<open>createNote\<close>: the query is invalidated, the form is reset and the
  dialog is closed.
\<close>

definition createNote_mutate :: "state \<Rightarrow> NoteFields \<Rightarrow> string \<Rightarrow> string \<Rightarrow> string \<Rightarrow> halt + state" where
  "createNote_mutate s note uuid now1 now2 =
    (let (created, updatedNotes) = createNote_mutationFn (the_notes s) note uuid now1 now2
     in case invalidateQueries (setItem updatedNotes s) of
          Inl h \<Rightarrow> Inl h
        | Inr s' \<Rightarrow> Inr (s'\<lparr>newNote := emptyNote, isModalOpen := False\<rparr>))"

text \<open>
  \<^verbatim>\<open>notes.map((note) => note.id === updatedNote.id ? updatedNote : note)\<close>.
  Reading \<^verbatim>\<open>note.id\<close> of an entry that is \<^verbatim>\<open>undefined\<close> or \<^verbatim>\<open>null\<close> throws a
  TypeError; then nothing is written and \<^verbatim>\<open>onSuccess\<close> does not run.
\<close>

definition updateNote_mutationFn :: "Note slot list \<Rightarrow> Note \<Rightarrow> error + Note slot list" where
  "updateNote_mutationFn ns updatedNote =
    (if list_all is_Obj ns
     then Inr (map (\<lambda>note. case note of
                       Obj n \<Rightarrow> if note_id n = note_id updatedNote then Obj updatedNote else note
                     | _ \<Rightarrow> note) ns)
     else Inl TypeError)"

definition updateNote_mutate :: "state \<Rightarrow> Note \<Rightarrow> halt + state" where
  "updateNote_mutate s updatedNote =
    (case updateNote_mutationFn (the_notes s) updatedNote of
       Inl e \<Rightarrow> Inl (Throws e)
     | Inr updatedNotes \<Rightarrow> invalidateQueries (setItem updatedNotes s))"

text \<open>\<^verbatim>\<open>notes.filter((note) => note.id !== id)\<close>\<close>

definition deleteNote_mutationFn :: "Note slot list \<Rightarrow> string \<Rightarrow> error + Note slot list" where
  "deleteNote_mutationFn ns i =
    (if list_all is_Obj ns
     then Inr (filter (\<lambda>note. case note of Obj n \<Rightarrow> note_id n \<noteq> i | _ \<Rightarrow> True) ns)
     else Inl TypeError)"

definition deleteNote_mutate :: "state \<Rightarrow> string \<Rightarrow> halt + state" where
  "deleteNote_mutate s i =
    (case deleteNote_mutationFn (the_notes s) i of
       Inl e \<Rightarrow> Inl (Throws e)
     | Inr updatedNotes \<Rightarrow> invalidateQueries (setItem updatedNotes s))"

text \<open>
  \<^verbatim>\<open>moveNote\<close> has no branch that throws. Its \<^verbatim>\<open>onSuccess\<close> does not refetch: it puts
  the array it computed into the query (\<^verbatim>\<open>setQueryData\<close>).
\<close>

definition moveNote_mutate :: "state \<Rightarrow> int \<Rightarrow> int \<Rightarrow> state" where
  "moveNote_mutate s fromIndex toIndex =
    (let updatedNotes = moveNote_mutationFn (the_notes s) fromIndex toIndex
     in (setItem updatedNotes s)\<lparr>data := Some updatedNotes\<rparr>)"

text \<open>
  A sequence of repository operations. A mutation that does not reach a next state
  leaves the state as it was. \<open>run\<close> lists the state after each operation.
\<close>

datatype op = Create NoteFields string string string | Update Note | Delete string | Reorder int int

fun apply_op :: "state \<Rightarrow> op \<Rightarrow> state" where
  "apply_op s (Create note uuid now1 now2) =
    (case createNote_mutate s note uuid now1 now2 of Inl h \<Rightarrow> s | Inr s' \<Rightarrow> s')"
| "apply_op s (Update n) = (case updateNote_mutate s n of Inl h \<Rightarrow> s | Inr s' \<Rightarrow> s')"
| "apply_op s (Delete i) = (case deleteNote_mutate s i of Inl h \<Rightarrow> s | Inr s' \<Rightarrow> s')"
| "apply_op s (Reorder fromIndex toIndex) = moveNote_mutate s fromIndex toIndex"

fun run :: "state \<Rightarrow> op list \<Rightarrow> state list" where
  "run s [] = []"
| "run s (x # xs) = apply_op s x # run (apply_op s x) xs"

text \<open>
  Storage and memory agree: the query function reads from storage the array that the
  query holds.
\<close>

definition in_sync :: "state \<Rightarrow> bool" where
  "in_sync s \<longleftrightarrow>
    (case queryFn (localStorage s) of
       Inr v \<Rightarrow> as_slots v = Some (the_notes s)
     | Inl e \<Rightarrow> False)"

text \<open>
  Every reorder of the sequence takes an entry out: the collection it meets is not
  empty and its \<open>fromIndex\<close> is below the length (a negative one counts from the end).
\<close>

fun reorders_remove :: "state \<Rightarrow> op list \<Rightarrow> bool" where
  "reorders_remove s [] = True"
| "reorders_remove s (Reorder f t # xs) =
    (the_notes s \<noteq> [] \<and> f < int (length (the_notes s)) \<and>
     reorders_remove (apply_op s (Reorder f t)) xs)"
| "reorders_remove s (x # xs) = reorders_remove (apply_op s x) xs"

section \<open>The creation dialog and its draft (notebook.tsx, lines 264-348)\<close>

text \<open>
  \<^verbatim>\<open>String.prototype.trim\<close> strips white space and line terminators. Among the code
  units below 256 these are tab, line feed, vertical tab, form feed, carriage return,
  space and the no-break space U+00A0. A string is truthy when it is not empty.
\<close>

definition isWhiteSpace :: "char \<Rightarrow> bool" where
  "isWhiteSpace c \<longleftrightarrow>
    c \<in> {CHR 0x09, CHR 0x0A, CHR 0x0B, CHR 0x0C, CHR 0x0D, CHR '' '', CHR 0xA0}"

definition trim :: "string \<Rightarrow> string" where
  "trim str = rev (dropWhile isWhiteSpace (rev (dropWhile isWhiteSpace str)))"

text \<open>\<^verbatim>\<open>draftId\<close> as a condition: \<^verbatim>\<open>null\<close> and the empty string are falsy.\<close>

fun has_draft :: "string option \<Rightarrow> bool" where
  "has_draft None = False"
| "has_draft (Some d) = (d \<noteq> [])"

text \<open>\<^verbatim>\<open>{ ...note, ...newNote, updatedAt: new Date().toISOString() }\<close>\<close>

definition merged :: "Note \<Rightarrow> NoteFields \<Rightarrow> string \<Rightarrow> Note" where
  "merged n f now =
    n\<lparr>title := title f, content := content f, color := color f, tags := tags f,
       items := items f, updatedAt := now\<rparr>"

text \<open>
  \<^verbatim>\<open>notes.map((note) => note.id === draftId
      ? { ...note, ...newNote, updatedAt: new Date().toISOString() } : note)\<close>,
  as the draft effect and \<^verbatim>\<open>handleSave\<close> both write it.
\<close>

definition update_draft :: "Note slot list \<Rightarrow> string \<Rightarrow> NoteFields \<Rightarrow> string \<Rightarrow> error + Note slot list" where
  "update_draft ns d f now =
    (if list_all is_Obj ns
     then Inr (map (\<lambda>note. case note of
                       Obj n \<Rightarrow> if note_id n = d then Obj (merged n f now) else note
                     | _ \<Rightarrow> note) ns)
     else Inl TypeError)"

text \<open>
  The effect "Reset form when modal is closed" (lines 265-284), as far as the state of
  this model goes.
\<close>

definition reset_effect :: "state \<Rightarrow> state" where
  "reset_effect s = (if \<not> isModalOpen s then s\<lparr>newNote := emptyNote\<rparr> else s)"

text \<open>
  The effect "On open, create or update draft" (lines 287-314). It runs when the
  debounced value of \<^verbatim>\<open>newNote\<close> or \<^verbatim>\<open>isModalOpen\<close> changes, and reads \<^verbatim>\<open>newNote\<close>,
  \<^verbatim>\<open>draftId\<close> and \<^verbatim>\<open>notes\<close> of the render. An exception in an effect is \<open>Inl (Throws e)\<close>.
\<close>

definition draft_effect :: "state \<Rightarrow> string \<Rightarrow> string \<Rightarrow> string \<Rightarrow> halt + state" where
  "draft_effect s uuid now1 now2 =
    (if isModalOpen s \<and> trim (title (newNote s)) \<noteq> []
     then (if \<not> has_draft (draftId s)
           then (let newDraft = \<lparr>title = title (newNote s), content = content (newNote s),
                                  color = color (newNote s), tags = tags (newNote s),
                                  items = items (newNote s),
                                  note_id = uuid, createdAt = now1, updatedAt = now2\<rparr>;
                     updatedNotes = the_notes s @ [Obj newDraft]
                 in invalidateQueries (setItem updatedNotes (s\<lparr>draftId := Some uuid\<rparr>)))
           else (case update_draft (the_notes s) (the (draftId s)) (newNote s) now1 of
                   Inl e \<Rightarrow> Inl (Throws e)
                 | Inr updatedNotes \<Rightarrow> invalidateQueries (setItem updatedNotes s)))
     else Inr s)"

text \<open>
  The effect "On close, remove draft if not saved" (lines 317-325):
  \<^verbatim>\<open>notes.filter((note) => note.id !== draftId)\<close> is the filter of \<^verbatim>\<open>deleteNote\<close>.
\<close>

definition removal_effect :: "state \<Rightarrow> halt + state" where
  "removal_effect s =
    (if \<not> isModalOpen s \<and> has_draft (draftId s)
     then (case deleteNote_mutationFn (the_notes s) (the (draftId s)) of
             Inl e \<Rightarrow> Inl (Throws e)
           | Inr updatedNotes \<Rightarrow>
               invalidateQueries ((setItem updatedNotes s)\<lparr>draftId := None\<rparr>))
     else Inr s)"

text \<open>
  The effects of a commit in which \<^verbatim>\<open>isModalOpen\<close> changed, in the order the component
  declares them. Each effect reads the values of the render; passing the state along
  gives the same, because the draft effect does nothing when the dialog is closed and
  the other two do nothing when it is open.
\<close>

definition commit_effects :: "state \<Rightarrow> string \<Rightarrow> string \<Rightarrow> string \<Rightarrow> halt + state" where
  "commit_effects s uuid now1 now2 =
    (case draft_effect (reset_effect s) uuid now1 now2 of
       Inl h \<Rightarrow> Inl h
     | Inr s' \<Rightarrow> removal_effect s')"

text \<open>\<^verbatim>\<open>onOpenChange={setIsModalOpen}\<close>: the dialog opens, or is dismissed.\<close>

definition setIsModalOpen :: "bool \<Rightarrow> state \<Rightarrow> string \<Rightarrow> string \<Rightarrow> string \<Rightarrow> halt + state" where
  "setIsModalOpen b s uuid now1 now2 = commit_effects (s\<lparr>isModalOpen := b\<rparr>) uuid now1 now2"

text \<open>The user edits a field; the draft effect runs once the debounced value settles.\<close>

definition setNewNote :: "NoteFields \<Rightarrow> state \<Rightarrow> state" where
  "setNewNote f s = s\<lparr>newNote := f\<rparr>"

text \<open>
  \<^verbatim>\<open>handleSave\<close> (lines 328-348), followed by the effects of its commit. With a draft the
  draft becomes the note; without one \<^verbatim>\<open>createNote.mutate(newNote)\<close> runs; with an empty
  title the button is "Cancel" and only closes the dialog.
\<close>

definition handleSave :: "state \<Rightarrow> string \<Rightarrow> string \<Rightarrow> string \<Rightarrow> halt + state" where
  "handleSave s uuid now1 now2 =
    (if trim (title (newNote s)) \<noteq> []
     then (if has_draft (draftId s)
           then (case update_draft (the_notes s) (the (draftId s)) (newNote s) now1 of
                   Inl e \<Rightarrow> Inl (Throws e)
                 | Inr updatedNotes \<Rightarrow>
                     (case invalidateQueries
                             ((setItem updatedNotes s)\<lparr>draftId := None, isModalOpen := False\<rparr>) of
                        Inl h \<Rightarrow> Inl h
                      | Inr s' \<Rightarrow> commit_effects s' uuid now1 now2))
           else (case createNote_mutate s (newNote s) uuid now1 now2 of
                   Inl h \<Rightarrow> Inl h
                 | Inr s' \<Rightarrow> commit_effects s' uuid now1 now2))
     else commit_effects (s\<lparr>isModalOpen := False\<rparr>) uuid now1 now2)"

section \<open>The card editor (NoteCard in src/unnamed/part_000, lines 47-70; layout-grid.tsx, lines 78-80)\<close>

text \<open>
  \<^verbatim>\<open>if (selected?.id === note.id && JSON.stringify(debouncedNote) !== JSON.stringify(note))
    onUpdate({ ...debouncedNote, updatedAt: new Date().toISOString() });\<close>
  The result is the argument of \<^verbatim>\<open>onUpdate\<close> when the effect calls it. The comparison of
  the two serialisations is the comparison of the two notes.
\<close>

definition NoteCard_effect :: "Note option \<Rightarrow> Note \<Rightarrow> Note \<Rightarrow> string \<Rightarrow> Note option" where
  "NoteCard_effect selected n debouncedNote now =
    (if (case selected of None \<Rightarrow> False | Some c \<Rightarrow> note_id c = note_id n) \<and> debouncedNote \<noteq> n
     then Some (debouncedNote\<lparr>updatedAt := now\<rparr>)
     else None)"

text \<open>\<^verbatim>\<open>onUpdate={(updatedNote) => updateNote.mutate(updatedNote)}\<close>\<close>

definition card_update :: "state \<Rightarrow> Note option \<Rightarrow> Note \<Rightarrow> Note \<Rightarrow> string \<Rightarrow> halt + state" where
  "card_update s selected n debouncedNote now =
    (case NoteCard_effect selected n debouncedNote now of
       None \<Rightarrow> Inr s
     | Some updatedNote \<Rightarrow> updateNote_mutate s updatedNote)"

section \<open>The filter (notebook.tsx, lines 243-262)\<close>

text \<open>
  \<^verbatim>\<open>String.prototype.toLowerCase\<close>: among the code units below 256 the upper-case
  letters are \<^verbatim>\<open>A\<close> to \<^verbatim>\<open>Z\<close> and U+00C0 to U+00DE without the multiplication sign
  U+00D7, each 32 below its lower-case letter; every other unit stays.
  \<^verbatim>\<open>String.prototype.includes\<close> (here \<open>js_includes\<close>): the second string occurs in the
  first as a contiguous part.
\<close>

definition upper_case :: string where
  "upper_case = ''ABCDEFGHIJKLMNOPQRSTUVWXYZ'' @
    [CHR 0xC0, CHR 0xC1, CHR 0xC2, CHR 0xC3, CHR 0xC4, CHR 0xC5, CHR 0xC6, CHR 0xC7,
     CHR 0xC8, CHR 0xC9, CHR 0xCA, CHR 0xCB, CHR 0xCC, CHR 0xCD, CHR 0xCE, CHR 0xCF,
     CHR 0xD0, CHR 0xD1, CHR 0xD2, CHR 0xD3, CHR 0xD4, CHR 0xD5, CHR 0xD6,
     CHR 0xD8, CHR 0xD9, CHR 0xDA, CHR 0xDB, CHR 0xDC, CHR 0xDD, CHR 0xDE]"

definition lower_case :: string where
  "lower_case = ''abcdefghijklmnopqrstuvwxyz'' @
    [CHR 0xE0, CHR 0xE1, CHR 0xE2, CHR 0xE3, CHR 0xE4, CHR 0xE5, CHR 0xE6, CHR 0xE7,
     CHR 0xE8, CHR 0xE9, CHR 0xEA, CHR 0xEB, CHR 0xEC, CHR 0xED, CHR 0xEE, CHR 0xEF,
     CHR 0xF0, CHR 0xF1, CHR 0xF2, CHR 0xF3, CHR 0xF4, CHR 0xF5, CHR 0xF6,
     CHR 0xF8, CHR 0xF9, CHR 0xFA, CHR 0xFB, CHR 0xFC, CHR 0xFD, CHR 0xFE]"

definition toLowerCase_char :: "char \<Rightarrow> char" where
  "toLowerCase_char c =
    (case map_of (zip upper_case lower_case) c of
       Some l \<Rightarrow> l
     | None \<Rightarrow> c)"

definition toLowerCase :: "string \<Rightarrow> string" where
  "toLowerCase str = map toLowerCase_char str"

fun js_includes :: "'a list \<Rightarrow> 'a list \<Rightarrow> bool" where
  "js_includes [] q = (q = [])"
| "js_includes (c # cs) q = (prefix q (c # cs) \<or> js_includes cs q)"

text \<open>
  The two \<^verbatim>\<open>filter\<close> calls, on an array of note objects. \<^verbatim>\<open>selectedColors.includes\<close>
  and \<^verbatim>\<open>note.tags.includes\<close> are membership, \<^verbatim>\<open>some\<close> is \<open>list_ex\<close>.
\<close>

definition filteredNotes :: "Note list \<Rightarrow> string list \<Rightarrow> string list \<Rightarrow> string \<Rightarrow> Note list" where
  "filteredNotes ns selectedColors selectedTags searchQuery =
    filter (\<lambda>n.
        if searchQuery = [] then True
        else js_includes (toLowerCase (title n)) (toLowerCase searchQuery) \<or>
             js_includes (toLowerCase (content n)) (toLowerCase searchQuery) \<or>
             list_ex (\<lambda>tag. js_includes (toLowerCase tag) (toLowerCase searchQuery)) (tags n))
      (filter (\<lambda>n.
          if length selectedColors = 0 \<and> length selectedTags = 0 then True
          else (let colorMatch = (length selectedColors = 0 \<or> color n \<in> set selectedColors);
                    tagMatch = (length selectedTags = 0 \<or>
                                list_ex (\<lambda>tag. tag \<in> set (tags n)) selectedTags)
                in colorMatch \<and> tagMatch))
        ns)"

text \<open>
  The filter as the specification words it: a note matches when (the colour set is
  empty or holds the note's colour) and (the tag set is empty or meets the note's tags)
  and (the search string is empty or is a case-insensitive substring of the title, the
  content or some tag).
\<close>

definition ci_substring :: "string \<Rightarrow> string \<Rightarrow> bool" where
  "ci_substring q str \<longleftrightarrow> sublist (toLowerCase q) (toLowerCase str)"

definition spec_matches :: "string set \<Rightarrow> string set \<Rightarrow> string \<Rightarrow> Note \<Rightarrow> bool" where
  "spec_matches colorSet tagSet search n \<longleftrightarrow>
    (colorSet = {} \<or> color n \<in> colorSet) \<and>
    (tagSet = {} \<or> set (tags n) \<inter> tagSet \<noteq> {}) \<and>
    (search = [] \<or> ci_substring search (title n) \<or> ci_substring search (content n) \<or>
     (\<exists>t \<in> set (tags n). ci_substring search t))"

section \<open>Example notes\<close>

definition noteA :: Note where
  "noteA = \<lparr>title = ''A'', content = ''first'', color = COLORS ! 0, tags = [], items = Some [],
             note_id = ''1'', createdAt = ''2025-01-01T10:00:00.000Z'',
             updatedAt = ''2025-01-01T10:00:00.000Z''\<rparr>"

definition noteB :: Note where
  "noteB = \<lparr>title = ''B'', content = ''second'', color = COLORS ! 1, tags = [''home''], items = None,
             note_id = ''2'', createdAt = ''2025-01-02T10:00:00.000Z'',
             updatedAt = ''2025-01-02T10:00:00.000Z''\<rparr>"

definition noteC :: Note where
  "noteC = \<lparr>title = ''C'', content = ''third'', color = COLORS ! 0, tags = [''Work''], items = Some [],
             note_id = ''3'', createdAt = ''2025-01-03T10:00:00.000Z'',
             updatedAt = ''2025-01-03T10:00:00.000Z''\<rparr>"

text \<open>The state of a component that has loaded the stored notes \<open>ns\<close>, dialog closed.\<close>

definition loaded :: "Note list \<Rightarrow> state" where
  "loaded ns = \<lparr>localStorage = Some (JSON_stringify (map Obj ns)), data = Some (map Obj ns),
                newNote = emptyNote, isModalOpen = False, draftId = None\<rparr>"

text \<open>
  A rendered component whose memory does not mirror storage: after the load, the stored
  text was replaced (by another tab, say) with one that is not JSON.
\<close>

definition stale :: state where
  "stale = (loaded [noteA, noteB])\<lparr>localStorage := Some Garbage\<rparr>"

text \<open>
  A dialog session: the dialog is opened on the loaded note \<open>noteA\<close>, the user types the
  title \<^verbatim>\<open>X\<close>, and the debounced value settles, which creates the draft \<^verbatim>\<open>d1\<close>.
\<close>

definition drafting :: state where
  "drafting =
    (case setIsModalOpen True (loaded [noteA]) ''d0'' ''2025-02-01T09:00:00.000Z'' ''2025-02-01T09:00:00.000Z'' of
       Inl e \<Rightarrow> loaded [noteA]
     | Inr s \<Rightarrow>
        (case draft_effect (setNewNote (emptyNote\<lparr>title := ''X''\<rparr>) s)
                ''d1'' ''2025-02-01T09:00:01.000Z'' ''2025-02-01T09:00:01.000Z'' of
           Inl e \<Rightarrow> loaded [noteA]
         | Inr s' \<Rightarrow> s'))"

section \<open>Writing and reading back\<close>

lemma those_map_Some:
  assumes "\<And>x. f (g x) = Some x"
  shows "those (map f (map g xs)) = Some xs"
  by (induction xs) (simp_all add: assms)

lemma as_strings_JString: "as_strings (JArray (map JString ts)) = Some ts"
  by (simp add: as_strings_def those_map_Some as_string_def del: map_map)

lemma as_item_json: "as_item (item_json i) = Some i"
  by (simp add: as_item_def item_json_def has_keys_def property_def as_string_def as_bool_def)

lemma as_items_json: "as_items (JArray (map item_json its)) = Some its"
  by (simp add: as_items_def those_map_Some as_item_json del: map_map)

lemma as_note_json: "as_note (note_json n) = Some n"
proof (cases "items n")
  case None
  then show ?thesis
    by (simp add: as_note_def note_json_def has_keys_def note_keys_def property_def as_string_def
        as_strings_JString)
next
  case (Some its)
  then show ?thesis
    by (simp add: as_note_def note_json_def has_keys_def note_keys_def property_def as_string_def
        as_strings_JString as_items_json)
qed

lemma entry_slot_note: "entry_slot (note_json n) = Some (Obj n)"
proof -
  obtain kvs where k: "note_json n = JObject kvs"
    by (simp add: note_json_def)
  have "entry_slot (JObject kvs) = map_option Obj (as_note (JObject kvs))" by simp
  then show ?thesis
    using as_note_json[of n] by (simp add: k)
qed

lemma entry_slot_json: "entry_slot (slot_json x) = Some (reread x)"
  by (cases x) (simp_all add: entry_slot_note)

lemma as_slots_stringify: "as_slots (JArray (map slot_json xs)) = Some (map reread xs)"
proof -
  have "those (map entry_slot (map slot_json xs)) = Some (map reread xs)"
    by (induction xs) (simp_all add: entry_slot_json)
  then show ?thesis by (simp add: as_slots_def del: map_map)
qed

lemma notes_in_stringify: "notes_in (JArray (map slot_json xs)) = objects xs"
proof -
  have null: "as_note JNull = None" by (simp add: as_note_def)
  have "List.map_filter as_note (map slot_json xs) = objects xs"
  proof (induction xs)
    case Nil
    then show ?case by (simp add: List.map_filter_simps)
  next
    case (Cons x xs)
    then show ?case
      by (cases x) (simp_all add: List.map_filter_simps null as_note_json)
  qed
  then show ?thesis by (simp add: notes_in_def del: map_map)
qed

lemma reread_defined: "Undefined \<notin> set xs \<Longrightarrow> map reread xs = xs"
proof (induction xs)
  case Nil
  then show ?case by simp
next
  case (Cons x xs)
  then show ?case by (cases x) simp_all
qed

lemma reread_objects: "list_all is_Obj xs \<Longrightarrow> map reread xs = xs"
proof (induction xs)
  case Nil
  then show ?case by simp
next
  case (Cons x xs)
  then show ?case by (cases x) simp_all
qed

lemma reread_not_undefined: "Undefined \<notin> set (map reread xs)"
proof (induction xs)
  case Nil
  then show ?case by simp
next
  case (Cons x xs)
  then show ?case by (cases x) simp_all
qed

lemma objects_reread: "objects (map reread xs) = objects xs"
proof (induction xs)
  case Nil
  then show ?case by simp
next
  case (Cons x xs)
  then show ?case by (cases x) simp_all
qed

lemma objects_Obj: "objects (map Obj ns) = ns"
  by (induction ns) simp_all

lemma all_Obj_objects: "list_all is_Obj xs \<Longrightarrow> map Obj (objects xs) = xs"
proof (induction xs)
  case Nil
  then show ?case by simp
next
  case (Cons x xs)
  then show ?case by (cases x) simp_all
qed

lemma objects_append: "objects (xs @ ys) = objects xs @ objects ys"
proof (induction xs)
  case Nil
  then show ?case by simp
next
  case (Cons x xs)
  then show ?case by (cases x) simp_all
qed

lemma all_Obj_map: "list_all is_Obj (map Obj ns)"
  by (simp add: list_all_iff)

lemma queryFn_stringify: "queryFn (Some (JSON_stringify xs)) = Inr (JArray (map slot_json xs))"
  by (simp add: queryFn_def JSON_stringify_def)

lemma invalidate_written:
  assumes "localStorage s = Some (JSON_stringify xs)"
  shows "invalidateQueries s = Inr (s\<lparr>data := Some (map reread xs)\<rparr>)"
  by (simp add: invalidateQueries_def assms queryFn_stringify as_slots_stringify)

lemma persisted_written:
  assumes "localStorage s = Some (JSON_stringify xs)"
  shows "persisted s = objects xs"
  by (simp add: persisted_def assms queryFn_stringify notes_in_stringify)

lemma in_sync_written:
  assumes "localStorage s = Some (JSON_stringify xs)"
  shows "in_sync s \<longleftrightarrow> the_notes s = map reread xs"
  by (auto simp: in_sync_def assms queryFn_stringify as_slots_stringify)

lemma write_refetch:
  "invalidateQueries (setItem xs s) =
     Inr (s\<lparr>localStorage := Some (JSON_stringify xs), data := Some (map reread xs)\<rparr>)"
proof -
  have "localStorage (setItem xs s) = Some (JSON_stringify xs)" by (simp add: setItem_def)
  then have "invalidateQueries (setItem xs s) = Inr ((setItem xs s)\<lparr>data := Some (map reread xs)\<rparr>)"
    by (rule invalidate_written)
  then show ?thesis by (simp add: setItem_def)
qed

lemma the_notes_update:
  "the_notes (s\<lparr>data := Some xs\<rparr>) = xs"
  "the_notes (s\<lparr>localStorage := l\<rparr>) = the_notes s"
  "the_notes (s\<lparr>newNote := a\<rparr>) = the_notes s"
  "the_notes (s\<lparr>isModalOpen := b\<rparr>) = the_notes s"
  "the_notes (s\<lparr>draftId := d\<rparr>) = the_notes s"
  by (simp_all add: the_notes_def)

lemma updateNote_mutate_cases:
  "updateNote_mutate s u = Inl (Throws TypeError) \<or> (\<exists>s'. updateNote_mutate s u = Inr s')"
  by (simp add: updateNote_mutate_def updateNote_mutationFn_def write_refetch)

lemma deleteNote_mutate_cases:
  "deleteNote_mutate s i = Inl (Throws TypeError) \<or> (\<exists>s'. deleteNote_mutate s i = Inr s')"
  by (simp add: deleteNote_mutate_def deleteNote_mutationFn_def write_refetch)

lemma createNote_mutate_cases:
  "\<exists>s'. createNote_mutate s nf uuid now1 now2 = Inr s'"
  by (simp add: createNote_mutate_def createNote_mutationFn_def Let_def write_refetch)

lemma loaded_notes: "the_notes (loaded ns) = map Obj ns"
  by (simp add: loaded_def the_notes_def)

lemma loaded_storage: "localStorage (loaded ns) = Some (JSON_stringify (map Obj ns))"
  by (simp add: loaded_def)

lemma loaded_persisted: "persisted (loaded ns) = ns"
  using persisted_written[OF loaded_storage] by (simp add: objects_Obj)

lemma loaded_renders: "renders (loaded ns)"
  by (simp add: renders_def loaded_notes all_Obj_map)

lemma loaded_in_sync: "in_sync (loaded ns)"
  using in_sync_written[OF loaded_storage, of ns]
  by (simp add: loaded_notes reread_objects all_Obj_map)

section \<open>Properties of the reorder mutation\<close>

lemma splice_remove_in_range:
  assumes "0 \<le> i" "i < int (length xs)"
  shows "splice xs i 1 [] = (take (nat i) xs @ drop (Suc (nat i)) xs, [xs ! nat i])"
proof -
  have "nat i < length xs" using assms by linarith
  then have "take 1 (drop (nat i) xs) = [xs ! nat i]"
    by (simp add: take_Suc_conv_app_nth)
  moreover have "min i (int (length xs)) = i" "min 1 (int (length xs) - i) = 1"
    using assms by simp_all
  ultimately show ?thesis
    using assms by (simp add: splice_def Let_def)
qed

lemma splice_insert_in_range:
  assumes "0 \<le> j" "j \<le> int (length ys)"
  shows "fst (splice ys j 0 [x]) = take (nat j) ys @ x # drop (nat j) ys"
  using assms by (simp add: splice_def Let_def min_def)

lemma moveNote_in_range:
  assumes "0 \<le> i" "i < int (length xs)" "0 \<le> j" "j < int (length xs)"
  shows "moveNote_mutationFn xs i j =
    take (nat j) (take (nat i) xs @ drop (Suc (nat i)) xs) @
    xs ! nat i # drop (nat j) (take (nat i) xs @ drop (Suc (nat i)) xs)"
proof -
  let ?rest = "take (nat i) xs @ drop (Suc (nat i)) xs"
  have len: "int (length ?rest) = int (length xs) - 1"
    using assms by (simp add: min_def)
  have "j \<le> int (length ?rest)" using assms len by linarith
  then have "fst (splice ?rest j 0 [xs ! nat i]) =
      take (nat j) ?rest @ xs ! nat i # drop (nat j) ?rest"
    using assms(3) by (rule splice_insert_in_range[rotated])
  then show ?thesis
    using assms by (simp add: moveNote_mutationFn_def splice_remove_in_range)
qed

lemma mset_splice_insert: "mset (fst (splice ys t 0 [x])) = add_mset x (mset ys)"
proof -
  have "mset (take a ys) + mset (drop a ys) = mset ys" for a
    by (metis append_take_drop_id mset_append)
  then show ?thesis
    by (simp add: splice_def Let_def)
qed

lemma length_splice_insert: "length (fst (splice ys t 0 [x])) = Suc (length ys)"
  by (simp add: splice_def Let_def)

lemma splice_remove_some:
  assumes "xs \<noteq> []" "f < int (length xs)"
  shows "\<exists>a < length xs. splice xs f 1 [] = (take a xs @ drop (Suc a) xs, [xs ! a])"
proof -
  define S where "S = (if f < 0 then max (int (length xs) + f) 0 else min f (int (length xs)))"
  have S: "0 \<le> S" "S < int (length xs)"
    using assms by (auto simp: S_def max_def min_def)
  then have a: "nat S < length xs" by linarith
  then have t: "take (Suc 0) (drop (nat S) xs) = [xs ! nat S]"
    by (simp add: take_Suc_conv_app_nth)
  have d: "min 1 (int (length xs) - S) = 1"
    using S by (simp add: min_def)
  have "splice xs f 1 [] = (take (nat S) xs @ drop (Suc (nat S)) xs, [xs ! nat S])"
    unfolding splice_def Let_def S_def[symmetric] using d t by simp
  with a show ?thesis by blast
qed

lemma splice_remove_none:
  assumes "xs = [] \<or> int (length xs) \<le> f"
  shows "splice xs f 1 [] = (xs, [])"
  using assms by (auto simp: splice_def Let_def min_def max_def)

lemma moveNote_removes:
  assumes "xs \<noteq> []" "f < int (length xs)"
  shows "length (moveNote_mutationFn xs f t) = length xs \<and> mset (moveNote_mutationFn xs f t) = mset xs"
proof -
  obtain a where a: "a < length xs"
    and s: "splice xs f 1 [] = (take a xs @ drop (Suc a) xs, [xs ! a])"
    using splice_remove_some[OF assms] by blast
  have m: "mset (take a xs @ drop (Suc a) xs) + {#xs ! a#} = mset xs"
    using a by (metis add_mset_add_single id_take_nth_drop mset.simps(2) mset_append union_mset_add_mset_right)
  have l: "Suc (length (take a xs @ drop (Suc a) xs)) = length xs"
    using a by simp
  show ?thesis
    using m l by (simp add: moveNote_mutationFn_def s mset_splice_insert length_splice_insert del: length_append mset_append)
qed

lemma moveNote_inserts_undefined:
  assumes "xs = [] \<or> int (length xs) \<le> f"
  shows "length (moveNote_mutationFn xs f t) = Suc (length xs) \<and>
     mset (moveNote_mutationFn xs f t) = add_mset Undefined (mset xs)"
  by (simp add: moveNote_mutationFn_def splice_remove_none[OF assms] mset_splice_insert length_splice_insert)

lemma moveNote_example: "moveNote_mutationFn [Obj noteA, Obj noteB, Obj noteC] 0 2 = [Obj noteB, Obj noteC, Obj noteA]"
  by (simp add: moveNote_mutationFn_def splice_def)

text \<open>
  Claim C10. For a collection of length \<open>n\<close> and indices \<open>fromIndex\<close>, \<open>toIndex\<close> in
  \<open>[0, n)\<close>, the reordered collection has length \<open>n\<close> and holds exactly the entries of
  the input, each as often as before and none changed: only positions change.
\<close>

theorem moveNote_permutation:
  assumes "0 \<le> fromIndex" "fromIndex < int (length notes)"
      and "0 \<le> toIndex" "toIndex < int (length notes)"
  shows "length (moveNote_mutationFn notes fromIndex toIndex) = length notes \<and>
         mset (moveNote_mutationFn notes fromIndex toIndex) = mset notes"
proof -
  have "notes \<noteq> []" using assms by auto
  then show ?thesis using assms(2) by (rule moveNote_removes)
qed

theorem moveNote_permutation_witness:
  "(0::int) \<le> 0 \<and> (0::int) < int (length [Obj noteA, Obj noteB, Obj noteC]) \<and>
   (0::int) \<le> 2 \<and> (2::int) < int (length [Obj noteA, Obj noteB, Obj noteC]) \<and>
   length (moveNote_mutationFn [Obj noteA, Obj noteB, Obj noteC] 0 2) = 3 \<and>
   mset (moveNote_mutationFn [Obj noteA, Obj noteB, Obj noteC] 0 2) =
     mset [Obj noteA, Obj noteB, Obj noteC]"
  using moveNote_permutation[of 0 "[Obj noteA, Obj noteB, Obj noteC]" 2] by simp

text \<open>
  Claim C9. For valid in-range indices \<open>i\<close> and \<open>j\<close>, reorder \<open>(i, j)\<close> followed by
  reorder \<open>(j, i)\<close> gives the original collection back. The claim asks for \<open>i \<noteq> j\<close>;
  the code also restores the order when \<open>i = j\<close>, so the theorem does not need it.
\<close>

theorem moveNote_inverse:
  assumes "0 \<le> i" "i < int (length notes)" "0 \<le> j" "j < int (length notes)"
  shows "moveNote_mutationFn (moveNote_mutationFn notes i j) j i = notes"
proof -
  define a b where "a = nat i" and "b = nat j"
  define rest where "rest = take a notes @ drop (Suc a) notes"
  define r where "r = take b rest @ notes ! a # drop b rest"
  have a: "a < length notes" and b: "b < length notes"
    using assms by (simp_all add: a_def b_def)
  have lrest: "Suc (length rest) = length notes"
    using a by (simp add: rest_def)
  have b': "b \<le> length rest" using b lrest by linarith
  have a': "a \<le> length rest" using a lrest by linarith
  have first: "moveNote_mutationFn notes i j = r"
    using moveNote_in_range[OF assms] by (simp add: r_def rest_def a_def b_def)
  have lr: "length r = length notes"
    using b' lrest by (simp add: r_def)
  have rb: "r ! b = notes ! a"
    using b' by (simp add: r_def nth_append)
  have tb: "take b r = take b rest" using b' by (simp add: r_def)
  have db: "drop (Suc b) r = drop b rest" using b' by (simp add: r_def)
  have "moveNote_mutationFn r j i =
      take a (take b r @ drop (Suc b) r) @ r ! b # drop a (take b r @ drop (Suc b) r)"
    using moveNote_in_range[of j r i] assms lr by (simp add: a_def b_def)
  also have "take b r @ drop (Suc b) r = rest"
    by (simp add: tb db)
  also have "take a rest = take a notes" using a by (simp add: rest_def)
  also have "drop a rest = drop (Suc a) notes" using a by (simp add: rest_def)
  also have "take a notes @ r ! b # drop (Suc a) notes = notes"
    using a by (simp add: rb id_take_nth_drop[symmetric])
  finally show ?thesis by (simp add: first)
qed

theorem moveNote_inverse_witness:
  "(0::int) \<le> 0 \<and> (0::int) < int (length [Obj noteA, Obj noteB, Obj noteC]) \<and>
   (0::int) \<le> 2 \<and> (2::int) < int (length [Obj noteA, Obj noteB, Obj noteC]) \<and>
   moveNote_mutationFn (moveNote_mutationFn [Obj noteA, Obj noteB, Obj noteC] 0 2) 2 0 =
     [Obj noteA, Obj noteB, Obj noteC]"
  using moveNote_inverse[of 0 "[Obj noteA, Obj noteB, Obj noteC]" 2] by simp

lemma splice_insert_beyond:
  assumes "int (length ys) \<le> t"
  shows "fst (splice ys t 0 [x]) = ys @ [x]"
  using assms by (simp add: splice_def Let_def min_def)

lemma moveNote_to_end:
  assumes "0 \<le> f" "f < int (length xs)" "int (length xs) \<le> t"
  shows "moveNote_mutationFn xs f t = take (nat f) xs @ drop (Suc (nat f)) xs @ [xs ! nat f]"
proof -
  let ?rest = "take (nat f) xs @ drop (Suc (nat f)) xs"
  have "nat f < length xs" using assms by linarith
  then have "int (length ?rest) \<le> t" using assms by (simp add: min_def)
  then have "fst (splice ?rest t 0 [xs ! nat f]) = ?rest @ [xs ! nat f]"
    by (rule splice_insert_beyond)
  then show ?thesis
    using assms by (simp add: moveNote_mutationFn_def splice_remove_in_range)
qed

text \<open>
  Claim C3 says that reorder rejects a pair of indices of which one is outside
  \<open>[0, n)\<close> and leaves the collection untouched. The mutation has no check: with
  \<open>fromIndex = 0\<close> and \<open>toIndex = 5\<close> on a collection of two notes it moves the first
  note to the end, in memory and in storage.
\<close>

theorem reorder_out_of_range_counterexample:
  "the_notes (loaded [noteA, noteB]) = [Obj noteA, Obj noteB] \<and>
   \<not> (5::int) < int (length (the_notes (loaded [noteA, noteB]))) \<and>
   the_notes (moveNote_mutate (loaded [noteA, noteB]) 0 5) = [Obj noteB, Obj noteA] \<and>
   persisted (moveNote_mutate (loaded [noteA, noteB]) 0 5) = [noteB, noteA] \<and>
   persisted (loaded [noteA, noteB]) = [noteA, noteB] \<and>
   noteA \<noteq> noteB"
proof -
  have x: "the_notes (loaded [noteA, noteB]) = [Obj noteA, Obj noteB]"
    by (simp add: loaded_notes)
  have r: "moveNote_mutationFn [Obj noteA, Obj noteB] 0 5 = [Obj noteB, Obj noteA]"
    by (simp add: moveNote_mutationFn_def splice_def)
  have m: "the_notes (moveNote_mutate (loaded [noteA, noteB]) 0 5) = [Obj noteB, Obj noteA]"
    by (simp add: moveNote_mutate_def x r Let_def the_notes_def[of "_\<lparr>data := _\<rparr>"])
  have "localStorage (moveNote_mutate (loaded [noteA, noteB]) 0 5) =
      Some (JSON_stringify [Obj noteB, Obj noteA])"
    by (simp add: moveNote_mutate_def x r setItem_def Let_def)
  then have p: "persisted (moveNote_mutate (loaded [noteA, noteB]) 0 5) = [noteB, noteA]"
    using persisted_written by fastforce
  have d: "noteA \<noteq> noteB" by (simp add: noteA_def noteB_def)
  show ?thesis using x m p d by (simp add: loaded_persisted)
qed

text \<open>
  Claim C3 as amended. Reorder validates nothing and never fails: for all integers it
  replaces the collection, in memory and in storage, by the result of the two splices.
  When the collection is not empty and \<open>fromIndex\<close> is below its length (a negative one
  counts from the end), the result is a permutation of the collection, whatever
  \<open>toIndex\<close> is; with \<open>fromIndex\<close> in range and \<open>toIndex\<close> at or beyond the length the note
  goes to the end. Otherwise nothing is removed and an \<^verbatim>\<open>undefined\<close> entry is inserted,
  so that the collection grows by one.
\<close>

theorem moveNote_never_rejects:
  "(let xs = the_notes s; n = int (length xs); r = moveNote_mutationFn xs fromIndex toIndex;
        s' = moveNote_mutate s fromIndex toIndex
    in localStorage s' = Some (JSON_stringify r) \<and> the_notes s' = r \<and>
       (if xs \<noteq> [] \<and> fromIndex < n
        then length r = length xs \<and> mset r = mset xs
        else length r = Suc (length xs) \<and> mset r = add_mset Undefined (mset xs)) \<and>
       (0 \<le> fromIndex \<and> fromIndex < n \<and> n \<le> toIndex \<longrightarrow>
          r = take (nat fromIndex) xs @ drop (Suc (nat fromIndex)) xs @ [xs ! nat fromIndex]))"
proof -
  let ?xs = "the_notes s"
  let ?r = "moveNote_mutationFn ?xs fromIndex toIndex"
  have a: "localStorage (moveNote_mutate s fromIndex toIndex) = Some (JSON_stringify ?r)"
    by (simp add: moveNote_mutate_def Let_def setItem_def)
  have b: "the_notes (moveNote_mutate s fromIndex toIndex) = ?r"
    by (simp add: moveNote_mutate_def Let_def setItem_def the_notes_def)
  have c: "length ?r = length ?xs \<and> mset ?r = mset ?xs"
    if "?xs \<noteq> [] \<and> fromIndex < int (length ?xs)"
    using that moveNote_removes by blast
  have d: "length ?r = Suc (length ?xs) \<and> mset ?r = add_mset Undefined (mset ?xs)"
    if "\<not> (?xs \<noteq> [] \<and> fromIndex < int (length ?xs))"
  proof -
    from that have "?xs = [] \<or> int (length ?xs) \<le> fromIndex" by auto
    then show ?thesis by (rule moveNote_inserts_undefined)
  qed
  have e: "?r = take (nat fromIndex) ?xs @ drop (Suc (nat fromIndex)) ?xs @ [?xs ! nat fromIndex]"
    if "0 \<le> fromIndex \<and> fromIndex < int (length ?xs) \<and> int (length ?xs) \<le> toIndex"
    using that moveNote_to_end by blast
  show ?thesis
    unfolding Let_def using a b c d e by presburger
qed

theorem moveNote_never_rejects_witness:
  "the_notes (loaded [noteA, noteB]) = [Obj noteA, Obj noteB] \<and>
   (0::int) \<le> 0 \<and> (0::int) < int (length (the_notes (loaded [noteA, noteB]))) \<and>
   int (length (the_notes (loaded [noteA, noteB]))) \<le> 5 \<and>
   localStorage (moveNote_mutate (loaded [noteA, noteB]) 0 5) = Some (JSON_stringify [Obj noteB, Obj noteA]) \<and>
   the_notes (moveNote_mutate (loaded [noteA, noteB]) 0 5) = [Obj noteB, Obj noteA] \<and>
   the_notes (moveNote_mutate (loaded [noteA, noteB]) 7 0) = [Undefined, Obj noteA, Obj noteB]"
proof -
  have x: "the_notes (loaded [noteA, noteB]) = [Obj noteA, Obj noteB]"
    by (simp add: loaded_notes)
  have m: "mset [Obj noteA, Obj noteB] = mset [Obj noteB, Obj noteA]"
    by (simp add: add_mset_commute)
  have one: "the_notes (moveNote_mutate (loaded [noteA, noteB]) 0 5) = [Obj noteB, Obj noteA]"
    using moveNote_never_rejects[of "loaded [noteA, noteB]" 0 5]
    by (simp add: x Let_def)
  have two: "localStorage (moveNote_mutate (loaded [noteA, noteB]) 0 5) = Some (JSON_stringify [Obj noteB, Obj noteA])"
    using moveNote_never_rejects[of "loaded [noteA, noteB]" 0 5]
    by (simp add: x Let_def)
  have three: "the_notes (moveNote_mutate (loaded [noteA, noteB]) 7 0) = [Undefined, Obj noteA, Obj noteB]"
    by (simp add: x moveNote_mutate_def the_notes_def[of "_\<lparr>data := _\<rparr>"] setItem_def Let_def moveNote_mutationFn_def splice_def)
  show ?thesis using x one two three by simp
qed

section \<open>Storage and memory after each operation\<close>

lemma in_sync_defined:
  assumes "in_sync s"
  shows "Undefined \<notin> set (the_notes s)"
proof -
  obtain v where v: "as_slots v = Some (the_notes s)"
    using assms by (auto simp: in_sync_def split: sum.splits)
  then obtain es where es: "those (map entry_slot es) = Some (the_notes s)"
    by (cases v) (simp_all add: as_slots_def)
  have "Undefined \<notin> set xs" if "those (map entry_slot es) = Some xs" for es xs
    using that
  proof (induction es arbitrary: xs)
    case Nil
    then show ?case by simp
  next
    case (Cons e es)
    then show ?case
      by (cases e) (auto split: option.splits)
  qed
  then show ?thesis using es by blast
qed

lemma refetched_in_sync:
  "in_sync (s\<lparr>localStorage := Some (JSON_stringify xs), data := Some (map reread xs)\<rparr>)"
  by (simp add: in_sync_def queryFn_stringify as_slots_stringify the_notes_def)

lemma written_state:
  assumes "list_all is_Obj xs"
  shows "in_sync (s\<lparr>localStorage := Some (JSON_stringify xs), data := Some (map reread xs)\<rparr>) \<and>
         renders (s\<lparr>localStorage := Some (JSON_stringify xs), data := Some (map reread xs)\<rparr>)"
  using assms reread_objects[OF assms] refetched_in_sync[where s=s and xs=xs]
  by (simp add: renders_def the_notes_def)

lemma dialog_fields:
  "in_sync (s\<lparr>newNote := a, isModalOpen := b\<rparr>) = in_sync s"
  "renders (s\<lparr>newNote := a, isModalOpen := b\<rparr>) = renders s"
proof -
  have t: "the_notes (s\<lparr>newNote := a, isModalOpen := b\<rparr>) = the_notes s"
    by (simp add: the_notes_def)
  show "in_sync (s\<lparr>newNote := a, isModalOpen := b\<rparr>) = in_sync s"
    unfolding in_sync_def t by simp
  show "renders (s\<lparr>newNote := a, isModalOpen := b\<rparr>) = renders s"
    unfolding renders_def t by simp
qed

lemma create_step:
  assumes "renders s"
  shows "in_sync (apply_op s (Create nf uuid now1 now2)) \<and>
         renders (apply_op s (Create nf uuid now1 now2))"
proof -
  obtain n where fn: "createNote_mutationFn (the_notes s) nf uuid now1 now2 = (n, the_notes s @ [Obj n])"
    by (simp add: createNote_mutationFn_def Let_def)
  define xs where "xs = the_notes s @ [Obj n]"
  have obj: "list_all is_Obj xs" using assms by (simp add: renders_def xs_def)
  have st: "apply_op s (Create nf uuid now1 now2) =
      (s\<lparr>localStorage := Some (JSON_stringify xs), data := Some (map reread xs)\<rparr>)
        \<lparr>newNote := emptyNote, isModalOpen := False\<rparr>"
    by (simp add: createNote_mutate_def fn write_refetch xs_def[symmetric])
  show ?thesis
    unfolding st dialog_fields using obj by (rule written_state)
qed

lemma update_step:
  assumes "renders s"
  shows "in_sync (apply_op s (Update u)) \<and> renders (apply_op s (Update u))"
proof -
  define xs where "xs = map (\<lambda>note. case note of
                       Obj n \<Rightarrow> if note_id n = note_id u then Obj u else note
                     | _ \<Rightarrow> note) (the_notes s)"
  have all: "list_all is_Obj (the_notes s)" using assms by (simp add: renders_def)
  have fn: "updateNote_mutationFn (the_notes s) u = Inr xs"
    using all by (simp add: updateNote_mutationFn_def xs_def)
  have obj: "list_all is_Obj xs"
    using all by (auto simp: list_all_iff xs_def split: slot.splits)
  have st: "apply_op s (Update u) =
      s\<lparr>localStorage := Some (JSON_stringify xs), data := Some (map reread xs)\<rparr>"
    by (simp add: updateNote_mutate_def fn write_refetch)
  show ?thesis
    unfolding st using obj by (rule written_state)
qed

lemma delete_step:
  assumes "renders s"
  shows "in_sync (apply_op s (Delete i)) \<and> renders (apply_op s (Delete i))"
proof -
  define xs where
    "xs = filter (\<lambda>note. case note of Obj n \<Rightarrow> note_id n \<noteq> i | _ \<Rightarrow> True) (the_notes s)"
  have all: "list_all is_Obj (the_notes s)" using assms by (simp add: renders_def)
  have fn: "deleteNote_mutationFn (the_notes s) i = Inr xs"
    using all by (simp add: deleteNote_mutationFn_def xs_def)
  have obj: "list_all is_Obj xs"
    using all by (auto simp: list_all_iff xs_def)
  have st: "apply_op s (Delete i) =
      s\<lparr>localStorage := Some (JSON_stringify xs), data := Some (map reread xs)\<rparr>"
    by (simp add: deleteNote_mutate_def fn write_refetch)
  show ?thesis
    unfolding st using obj by (rule written_state)
qed

lemma move_step:
  assumes "renders s" "the_notes s \<noteq> []" "f < int (length (the_notes s))"
  shows "in_sync (apply_op s (Reorder f t)) \<and> renders (apply_op s (Reorder f t))"
proof -
  define r where "r = moveNote_mutationFn (the_notes s) f t"
  have "mset r = mset (the_notes s)"
    using moveNote_removes[OF assms(2,3)] by (simp add: r_def)
  then have "set r = set (the_notes s)" by (rule mset_eq_setD)
  then have obj: "list_all is_Obj r"
    using assms(1) by (simp add: renders_def list_all_iff)
  have st: "apply_op s (Reorder f t) =
      s\<lparr>localStorage := Some (JSON_stringify r), data := Some (map reread r)\<rparr>"
    by (simp add: moveNote_mutate_def Let_def setItem_def r_def[symmetric] reread_objects[OF obj])
  show ?thesis
    unfolding st using obj by (rule written_state)
qed

lemma sync_step:
  assumes "renders s" "reorders_remove s [x]"
  shows "in_sync (apply_op s x) \<and> renders (apply_op s x)"
proof (cases x)
  case (Create nf uuid now1 now2)
  then show ?thesis using create_step[OF assms(1)] by simp
next
  case (Update u)
  then show ?thesis using update_step[OF assms(1)] by simp
next
  case (Delete i)
  then show ?thesis using delete_step[OF assms(1)] by simp
next
  case (Reorder f t)
  then show ?thesis using assms move_step[of s f t] by simp
qed

lemma throwing_step:
  assumes "\<not> list_all is_Obj (the_notes s)"
  shows "apply_op s (Update u) = s" "apply_op s (Delete i) = s"
  using assms
  by (simp_all add: updateNote_mutate_def updateNote_mutationFn_def deleteNote_mutate_def
      deleteNote_mutationFn_def)

lemma sync_step_from_sync:
  assumes "in_sync s" "reorders_remove s [x]"
  shows "in_sync (apply_op s x)"
proof (cases "renders s")
  case True
  then show ?thesis using sync_step[OF True assms(2)] by simp
next
  case False
  then have no: "\<not> list_all is_Obj (the_notes s)" by (simp add: renders_def)
  show ?thesis
  proof (cases x)
    case (Create nf uuid now1 now2)
    obtain n where fn: "createNote_mutationFn (the_notes s) nf uuid now1 now2 = (n, the_notes s @ [Obj n])"
      by (simp add: createNote_mutationFn_def Let_def)
    define xs where "xs = the_notes s @ [Obj n]"
    have st: "apply_op s (Create nf uuid now1 now2) =
      (s\<lparr>localStorage := Some (JSON_stringify xs), data := Some (map reread xs)\<rparr>)
        \<lparr>newNote := emptyNote, isModalOpen := False\<rparr>"
      by (simp add: createNote_mutate_def fn write_refetch xs_def[symmetric])
    show ?thesis
      unfolding Create st dialog_fields by (rule refetched_in_sync)
  next
    case (Update u)
    then show ?thesis using assms(1) throwing_step(1)[OF no] by simp
  next
    case (Delete i)
    then show ?thesis using assms(1) throwing_step(2)[OF no] by simp
  next
    case (Reorder f t)
    define r where "r = moveNote_mutationFn (the_notes s) f t"
    have rem: "the_notes s \<noteq> []" "f < int (length (the_notes s))"
      using assms(2) Reorder by simp_all
    have "mset r = mset (the_notes s)"
      using moveNote_removes[OF rem] by (simp add: r_def)
    then have "set r = set (the_notes s)" by (rule mset_eq_setD)
    then have "Undefined \<notin> set r" using in_sync_defined[OF assms(1)] by simp
    then have rr: "map reread r = r" by (rule reread_defined)
    have st: "apply_op s (Reorder f t) =
      s\<lparr>localStorage := Some (JSON_stringify r), data := Some (map reread r)\<rparr>"
      by (simp add: moveNote_mutate_def Let_def setItem_def r_def[symmetric] rr)
    show ?thesis
      unfolding Reorder st by (rule refetched_in_sync)
  qed
qed

lemma reorders_remove_Cons:
  "reorders_remove s (x # xs) \<longleftrightarrow> reorders_remove s [x] \<and> reorders_remove (apply_op s x) xs"
  by (cases x) auto

text \<open>
  Claim C8 says that after every operation of every sequence, from any starting state,
  the persisted collection equals the collection in memory. A reorder whose \<open>fromIndex\<close>
  is at or beyond the length removes nothing and inserts \<^verbatim>\<open>undefined\<close>;
  \<^verbatim>\<open>setQueryData\<close> keeps that entry in memory while \<^verbatim>\<open>JSON.stringify\<close> stores \<^verbatim>\<open>null\<close>.
  From the state so reached, where memory holds an entry that is no object and does not
  mirror storage, an update throws and leaves the difference in place.
\<close>

theorem sync_counterexample:
  "renders (loaded [noteA]) \<and> in_sync (loaded [noteA]) \<and>
   the_notes (apply_op (loaded [noteA]) (Reorder 5 0)) = [Undefined, Obj noteA] \<and>
   queryFn (localStorage (apply_op (loaded [noteA]) (Reorder 5 0))) =
     Inr (JArray [JNull, note_json noteA]) \<and>
   as_slots (JArray [JNull, note_json noteA]) = Some [Null, Obj noteA] \<and>
   \<not> list_all in_sync (run (loaded [noteA]) [Reorder 5 0]) \<and>
   \<not> list_all in_sync (run (apply_op (loaded [noteA]) (Reorder 5 0)) [Update noteA])"
proof -
  define t0 where "t0 = apply_op (loaded [noteA]) (Reorder 5 0)"
  have r: "moveNote_mutationFn [Obj noteA] 5 0 = [Undefined, Obj noteA]"
    by (simp add: moveNote_mutationFn_def splice_def)
  have st: "t0 = (loaded [noteA])\<lparr>localStorage := Some (JSON_stringify [Undefined, Obj noteA]),
      data := Some [Undefined, Obj noteA]\<rparr>"
    by (simp add: t0_def moveNote_mutate_def loaded_notes r setItem_def Let_def)
  have m: "the_notes t0 = [Undefined, Obj noteA]"
    unfolding st by (simp add: the_notes_def)
  have q: "queryFn (localStorage t0) = Inr (JArray [JNull, note_json noteA])"
    unfolding st by (simp add: queryFn_stringify)
  have a: "as_slots (JArray [JNull, note_json noteA]) = Some [Null, Obj noteA]"
    using as_slots_stringify[of "[Null, Obj noteA]"] by simp
  have n: "\<not> in_sync t0"
    unfolding in_sync_def q m by (simp add: a)
  have "\<not> list_all is_Obj (the_notes t0)" unfolding m by simp
  then have u: "apply_op t0 (Update noteA) = t0" by (rule throwing_step)
  have n1: "\<not> list_all in_sync (run (loaded [noteA]) [Reorder 5 0])"
    using n unfolding t0_def by simp
  have n2: "\<not> list_all in_sync (run t0 [Update noteA])"
    using n by (simp only: run.simps u list.pred_inject simp_thms)
  show ?thesis
    using m q a n1 n2 loaded_renders[of "[noteA]"] loaded_in_sync[of "[noteA]"]
    unfolding t0_def by blast
qed

text \<open>
  Claim C8 as amended. From any starting state in which every entry of \<^verbatim>\<open>notes\<close> is an
  object (the rendered component; memory need not mirror storage) or in which memory
  mirrors storage, and for every sequence of create, update, delete and reorder
  operations in which each reorder takes an entry out (the collection it meets is not
  empty and its \<open>fromIndex\<close> is below the length), storage and memory agree after each
  operation.
\<close>

theorem sync_preserved:
  assumes "renders s \<or> in_sync s" "reorders_remove s ops"
  shows "list_all in_sync (run s ops)"
  using assms
proof (induction ops arbitrary: s)
  case Nil
  then show ?case by simp
next
  case (Cons x ops)
  from Cons.prems(2) have one: "reorders_remove s [x]" and rest: "reorders_remove (apply_op s x) ops"
    using reorders_remove_Cons[of s x ops] by simp_all
  have now: "in_sync (apply_op s x)"
    using Cons.prems(1) sync_step[OF _ one] sync_step_from_sync[OF _ one] by blast
  then have "list_all in_sync (run (apply_op s x) ops)"
    using Cons.IH rest by blast
  then show ?case using now by simp
qed

theorem sync_preserved_witness:
  "renders stale \<and> \<not> in_sync stale \<and>
   reorders_remove stale
     [Reorder 0 1, Delete ''1'', Update (noteB\<lparr>title := ''b''\<rparr>),
      Create emptyNote ''4'' ''t'' ''t'', Reorder (-1) 0] \<and>
   list_all in_sync
     (run stale
       [Reorder 0 1, Delete ''1'', Update (noteB\<lparr>title := ''b''\<rparr>),
        Create emptyNote ''4'' ''t'' ''t'', Reorder (-1) 0])"
proof -
  have n: "the_notes stale = [Obj noteA, Obj noteB]"
    by (simp add: stale_def the_notes_def loaded_def)
  have a: "renders stale"
    by (simp add: renders_def n)
  have c: "\<not> in_sync stale"
    by (simp add: in_sync_def stale_def queryFn_def)
  have b: "reorders_remove stale
     [Reorder 0 1, Delete ''1'', Update (noteB\<lparr>title := ''b''\<rparr>),
      Create emptyNote ''4'' ''t'' ''t'', Reorder (-1) 0]"
    by (simp add: n moveNote_mutate_def moveNote_mutationFn_def splice_def Let_def
        the_notes_update setItem_def
        deleteNote_mutate_def deleteNote_mutationFn_def updateNote_mutate_def
        updateNote_mutationFn_def createNote_mutate_def createNote_mutationFn_def
        invalidate_written noteA_def noteB_def)
  have a': "renders stale \<or> in_sync stale" using a by simp
  show ?thesis using a b c sync_preserved[OF a' b] by simp
qed

section \<open>The filter\<close>

lemma js_includes_sublist: "js_includes str q \<longleftrightarrow> sublist q str"
  by (induction str) (auto simp: sublist_Cons_right)

lemma list_ex_inter: "list_ex (\<lambda>tag. tag \<in> set ts) sel \<longleftrightarrow> set ts \<inter> set sel \<noteq> {}"
  by (auto simp: list_ex_iff)

text \<open>
  Claim C7. For every list of notes and every filter criteria (selected colours,
  selected tags, search string) the filter returns exactly the notes that match the
  specification's predicate, in the order of the input: the result is the input
  filtered by \<open>spec_matches\<close>. The proof does not look into \<open>toLowerCase\<close>.
\<close>

theorem filteredNotes_matches:
  "filteredNotes ns selectedColors selectedTags searchQuery =
     filter (spec_matches (set selectedColors) (set selectedTags) searchQuery) ns"
proof -
  have "filteredNotes ns selectedColors selectedTags searchQuery =
      filter (\<lambda>n. (selectedColors = [] \<or> color n \<in> set selectedColors) \<and>
                   (selectedTags = [] \<or> set (tags n) \<inter> set selectedTags \<noteq> {}) \<and>
                   (searchQuery = [] \<or> ci_substring searchQuery (title n) \<or>
                    ci_substring searchQuery (content n) \<or>
                    (\<exists>t \<in> set (tags n). ci_substring searchQuery t))) ns"
    unfolding filteredNotes_def filter_filter Let_def
    by (rule filter_cong) (auto simp: js_includes_sublist list_ex_inter ci_substring_def list_ex_iff)
  then show ?thesis
    by (simp add: spec_matches_def[abs_def])
qed

theorem filteredNotes_matches_witness:
  "filteredNotes [noteA, noteB, noteC] [COLORS ! 0] [] ''WOR'' = [noteC] \<and>
   filter (spec_matches {COLORS ! 0} {} ''WOR'') [noteA, noteB, noteC] = [noteC]"
proof -
  have "filteredNotes [noteA, noteB, noteC] [COLORS ! 0] [] ''WOR'' = [noteC]"
    by (simp add: filteredNotes_def noteA_def noteB_def noteC_def COLORS_def toLowerCase_def toLowerCase_char_def
        upper_case_def lower_case_def)
  then show ?thesis
    using filteredNotes_matches[of "[noteA, noteB, noteC]" "[COLORS ! 0]" "[]" "''WOR''"] by simp
qed

section \<open>The draft of the creation dialog\<close>



lemma drafting_notes:
  "drafting =
    \<lparr>localStorage = Some (JSON_stringify [Obj noteA,
        Obj \<lparr>title = ''X'', content = [], color = COLORS ! 0, tags = [], items = Some [],
              note_id = ''d1'', createdAt = ''2025-02-01T09:00:01.000Z'',
              updatedAt = ''2025-02-01T09:00:01.000Z''\<rparr>]),
     data = Some [Obj noteA,
        Obj \<lparr>title = ''X'', content = [], color = COLORS ! 0, tags = [], items = Some [],
              note_id = ''d1'', createdAt = ''2025-02-01T09:00:01.000Z'',
              updatedAt = ''2025-02-01T09:00:01.000Z''\<rparr>],
     newNote = emptyNote\<lparr>title := ''X''\<rparr>, isModalOpen = True, draftId = Some ''d1''\<rparr>"
  by (simp add: drafting_def setIsModalOpen_def commit_effects_def reset_effect_def
      draft_effect_def removal_effect_def loaded_def emptyNote_def trim_def isWhiteSpace_def
      setNewNote_def the_notes_def Let_def setItem_def invalidate_written)


lemma handleSave_keeps_draft:
  "\<exists>s'. handleSave drafting ''d2'' ''2025-02-01T09:00:03.000Z'' ''2025-02-01T09:00:03.000Z'' = Inr s' \<and>
        map note_id (persisted s') = [''1'', ''d1''] \<and> draftId s' = None \<and> \<not> isModalOpen s'"
proof -
  define xs where "xs = [Obj noteA,
        Obj \<lparr>title = ''X'', content = [], color = COLORS ! 0, tags = [], items = Some [],
              note_id = ''d1'', createdAt = ''2025-02-01T09:00:01.000Z'',
              updatedAt = ''2025-02-01T09:00:03.000Z''\<rparr>]"
  have "handleSave drafting ''d2'' ''2025-02-01T09:00:03.000Z'' ''2025-02-01T09:00:03.000Z'' =
      Inr \<lparr>localStorage = Some (JSON_stringify xs), data = Some xs,
           newNote = emptyNote, isModalOpen = False, draftId = None\<rparr>"
    by (simp add: drafting_notes handleSave_def update_draft_def merged_def commit_effects_def
      reset_effect_def draft_effect_def removal_effect_def emptyNote_def trim_def isWhiteSpace_def
      the_notes_def setItem_def invalidate_written noteA_def xs_def)
  moreover have "persisted \<lparr>localStorage = Some (JSON_stringify xs), data = Some xs,
           newNote = emptyNote, isModalOpen = False, draftId = None\<rparr> = objects xs"
    by (rule persisted_written) simp
  ultimately show ?thesis
    by (simp add: xs_def noteA_def)
qed

section \<open>Loading\<close>

lemma as_slots_notes: "as_slots (JArray (map note_json ns)) = Some (map Obj ns)"
proof -
  have a: "map slot_json (map Obj ns) = map note_json ns" by simp
  have b: "map reread (map Obj ns) = map Obj ns"
    by (rule reread_objects) (rule all_Obj_map)
  show ?thesis
    using as_slots_stringify[of "map Obj ns"] unfolding a b .
qed

lemma refetch_null:
  "invalidateQueries (s\<lparr>localStorage := Some (JsonText JNull)\<rparr>) = Inl (Untyped JNull)"
  by (simp add: invalidateQueries_def queryFn_def as_slots_def)

text \<open>
  Claim C2 says that the load returns a sequence of notes for every stored value, and
  the empty sequence, raising nothing, when the stored text is not valid JSON. The query
  function hands the text to \<^verbatim>\<open>JSON.parse\<close> without a \<^verbatim>\<open>try\<close>: on a text that is not
  JSON it throws a SyntaxError, and on the valid text \<^verbatim>\<open>null\<close> it returns \<^verbatim>\<open>null\<close>,
  which is no sequence of notes and on which the render throws.
\<close>

theorem queryFn_corrupt_counterexample:
  "queryFn (Some Garbage) = Inl SyntaxError \<and> queryFn (Some Garbage) \<noteq> Inr (JArray []) \<and>
   queryFn (Some (JsonText JNull)) = Inr JNull \<and> as_slots JNull = None \<and>
   flatMap_tags (notes_of_data (first_fetch (Some (JsonText JNull)))) = Inl TypeError"
  by (simp add: queryFn_def as_slots_def first_fetch_def notes_of_data_def flatMap_tags_def)

text \<open>
  Claim C2 as amended. The query function returns the empty sequence when the entry is
  absent or the empty string. When the stored text is valid JSON it returns the value
  the text denotes, as it is: the sequence of notes when the text denotes one, and
  otherwise a value that is no sequence of notes (for the text \<^verbatim>\<open>null\<close> it returns
  \<^verbatim>\<open>null\<close>; the default \<^verbatim>\<open>[]\<close> does not stand in for \<^verbatim>\<open>null\<close>, and the first render
  throws a TypeError in \<^verbatim>\<open>notes.flatMap\<close>). When the stored text is not valid JSON,
  \<^verbatim>\<open>JSON.parse\<close> throws a SyntaxError out of the query function; the query then keeps the
  data it had, so that on a first load the component's \<^verbatim>\<open>notes\<close> is its default, the
  empty sequence.
\<close>

theorem queryFn_cases:
  "queryFn None = Inr (JArray []) \<and>
   queryFn (Some EmptyText) = Inr (JArray []) \<and>
   queryFn (Some (JsonText v)) = Inr v \<and>
   as_slots (JArray (map note_json ns)) = Some (map Obj ns) \<and>
   notes_of_data (first_fetch (Some (JsonText JNull))) = JNull \<and>
   flatMap_tags JNull = Inl TypeError \<and>
   queryFn (Some Garbage) = Inl SyntaxError \<and>
   invalidateQueries (s\<lparr>localStorage := Some Garbage\<rparr>) = Inr (s\<lparr>localStorage := Some Garbage\<rparr>) \<and>
   notes_of_data (first_fetch (Some Garbage)) = JArray []"
  by (simp add: queryFn_def invalidateQueries_def first_fetch_def notes_of_data_def
      flatMap_tags_def as_slots_notes)

section \<open>Creating a note\<close>

lemma uuidv4_not_empty: "uuidv4 rnds \<noteq> []"
  by (simp add: uuidv4_def Let_def)

lemma uuidv4_example: "uuidv4 (replicate 16 0) = ''00000000-0000-4000-8000-000000000000''"
  by code_simp

text \<open>
  Claim C5 says that the created note has \<open>createdAt\<close> equal to \<open>updatedAt\<close> and an id that
  is not yet in the collection. The object literal reads the clock twice, once for each
  field; when the clock advances between the two readings the fields differ. The id is
  what \<^verbatim>\<open>uuidv4()\<close> returns, and the code does not compare it with the ids of the
  collection: when the generator returns the id of a note of the collection, the created
  note has that id.
\<close>

theorem createNote_counterexample:
  "createdAt (fst (createNote_mutationFn [] (emptyNote\<lparr>title := ''Groceries'', content := ''milk, eggs''\<rparr>)
      (uuidv4 (replicate 16 0)) ''2025-03-01T12:00:00.999Z'' ''2025-03-01T12:00:01.000Z'')) \<noteq>
   updatedAt (fst (createNote_mutationFn [] (emptyNote\<lparr>title := ''Groceries'', content := ''milk, eggs''\<rparr>)
      (uuidv4 (replicate 16 0)) ''2025-03-01T12:00:00.999Z'' ''2025-03-01T12:00:01.000Z'')) \<and>
   note_id (fst (createNote_mutationFn [Obj (noteA\<lparr>note_id := uuidv4 (replicate 16 0)\<rparr>)]
      (emptyNote\<lparr>title := ''Groceries'', content := ''milk, eggs''\<rparr>)
      (uuidv4 (replicate 16 0)) ''2025-03-01T12:00:00.000Z'' ''2025-03-01T12:00:00.000Z''))
     \<in> note_id ` set (objects [Obj (noteA\<lparr>note_id := uuidv4 (replicate 16 0)\<rparr>)])"
  by (simp add: createNote_mutationFn_def Let_def)

text \<open>
  Claim C5 as amended. For every collection and every input of fields, \<open>create\<close> returns
  a note whose id is the identifier \<^verbatim>\<open>uuidv4()\<close> returned, a string that is not empty
  (the code does not compare it with the ids of the collection, so it is new to the
  collection only when the generator's identifier is), whose \<open>createdAt\<close> and \<open>updatedAt\<close>
  are the two successive readings of the clock (equal when both readings are the same),
  and whose other fields are the given ones. The new collection is the old collection
  with that note appended at the end; it is what is written to storage, and after the
  refetch memory holds it as it is read back. With the dialog's default fields and the
  title \<^verbatim>\<open>Groceries\<close> and content \<^verbatim>\<open>milk, eggs\<close> the note has the first colour of the
  palette, no tags and no items.
\<close>

theorem createNote_appends:
  "(let (n, updatedNotes) = createNote_mutationFn (the_notes s) f (uuidv4 rnds) now1 now2
    in note_id n = uuidv4 rnds \<and> note_id n \<noteq> [] \<and>
       createdAt n = now1 \<and> updatedAt n = now2 \<and>
       (now1 = now2 \<longrightarrow> createdAt n = updatedAt n) \<and>
       title n = title f \<and> content n = content f \<and> color n = color f \<and>
       tags n = tags f \<and> items n = items f \<and>
       updatedNotes = the_notes s @ [Obj n] \<and>
       (\<exists>s'. createNote_mutate s f (uuidv4 rnds) now1 now2 = Inr s' \<and>
             localStorage s' = Some (JSON_stringify (the_notes s @ [Obj n])) \<and>
             persisted s' = objects (the_notes s) @ [n] \<and>
             the_notes s' = map reread (the_notes s) @ [Obj n]) \<and>
       (f = emptyNote\<lparr>title := ''Groceries'', content := ''milk, eggs''\<rparr> \<longrightarrow>
          color n = COLORS ! 0 \<and> tags n = [] \<and> items n = Some []))"
proof -
  define n where "n = \<lparr>title = title f, content = content f, color = color f,
                     tags = tags f, items = items f,
                     note_id = uuidv4 rnds, createdAt = now1, updatedAt = now2\<rparr>"
  define xs where "xs = the_notes s @ [Obj n]"
  have fn: "createNote_mutationFn (the_notes s) f (uuidv4 rnds) now1 now2 = (n, xs)"
    by (simp add: createNote_mutationFn_def n_def xs_def Let_def)
  define s' where "s' = s\<lparr>localStorage := Some (JSON_stringify xs), data := Some (map reread xs),
      newNote := emptyNote, isModalOpen := False\<rparr>"
  have step: "createNote_mutate s f (uuidv4 rnds) now1 now2 = Inr s'"
    by (simp add: createNote_mutate_def fn write_refetch s'_def)
  have sto: "localStorage s' = Some (JSON_stringify xs)"
    by (simp add: s'_def)
  then have per: "persisted s' = objects (the_notes s) @ [n]"
    using persisted_written[of s' xs] by (simp add: xs_def objects_append)
  have mem: "the_notes s' = map reread (the_notes s) @ [Obj n]"
    by (simp add: s'_def the_notes_update xs_def)
  have fields: "note_id n = uuidv4 rnds" "createdAt n = now1" "updatedAt n = now2"
    "title n = title f" "content n = content f" "color n = color f" "tags n = tags f"
    "items n = items f"
    by (simp_all add: n_def)
  have dflt: "color n = COLORS ! 0 \<and> tags n = [] \<and> items n = Some []"
    if "f = emptyNote\<lparr>title := ''Groceries'', content := ''milk, eggs''\<rparr>"
    using that by (simp add: n_def emptyNote_def)
  have ex: "\<exists>t. createNote_mutate s f (uuidv4 rnds) now1 now2 = Inr t \<and>
             localStorage t = Some (JSON_stringify (the_notes s @ [Obj n])) \<and>
             persisted t = objects (the_notes s) @ [n] \<and>
             the_notes t = map reread (the_notes s) @ [Obj n]"
    using step sto per mem by (simp add: xs_def)
  show ?thesis
    unfolding fn Let_def prod.case xs_def
    using fields uuidv4_not_empty[of rnds] dflt ex by simp
qed

theorem createNote_appends_witness:
  "(let (n, updatedNotes) = createNote_mutationFn (the_notes (loaded [noteA]))
          (emptyNote\<lparr>title := ''Groceries'', content := ''milk, eggs''\<rparr>) (uuidv4 (replicate 16 0))
          ''2025-03-01T12:00:00.000Z'' ''2025-03-01T12:00:00.000Z''
    in note_id n = ''00000000-0000-4000-8000-000000000000'' \<and> createdAt n = updatedAt n \<and>
       color n = COLORS ! 0 \<and> tags n = [] \<and> items n = Some [] \<and>
       updatedNotes = [Obj noteA, Obj n] \<and>
       (\<exists>s'. createNote_mutate (loaded [noteA])
          (emptyNote\<lparr>title := ''Groceries'', content := ''milk, eggs''\<rparr>) (uuidv4 (replicate 16 0))
          ''2025-03-01T12:00:00.000Z'' ''2025-03-01T12:00:00.000Z'' = Inr s' \<and>
          persisted s' = [noteA, n] \<and> the_notes s' = [Obj noteA, Obj n]))"
  using createNote_appends[of "loaded [noteA]"
        "emptyNote\<lparr>title := ''Groceries'', content := ''milk, eggs''\<rparr>" "replicate 16 0"
        "''2025-03-01T12:00:00.000Z''" "''2025-03-01T12:00:00.000Z''"]
  by (auto simp: loaded_notes Let_def uuidv4_example emptyNote_def split: prod.splits)

section \<open>Updating a note from the card editor\<close>

lemma update_map_objects:
  assumes "list_all is_Obj xs"
  shows "map (\<lambda>note. case note of Obj m \<Rightarrow> if note_id m = i then Obj u else note | _ \<Rightarrow> note) xs =
         map Obj (map (\<lambda>m. if note_id m = i then u else m) (objects xs))"
  using assms
proof (induction xs)
  case Nil
  then show ?case by simp
next
  case (Cons x xs)
  then show ?case by (cases x) simp_all
qed

lemma map_unchanged:
  assumes "i \<notin> note_id ` set ms"
  shows "map (\<lambda>m. if note_id m = i then u else m) ms = ms"
  using assms by (induction ms) auto

text \<open>
  Claim C6. \<open>update\<close> is the path from the card editor: when its debounced effect
  fires, it passes the edited note with \<open>updatedAt\<close> set to the current time to
  \<^verbatim>\<open>updateNote.mutate\<close>, whose mutation function puts the note it is given in the place
  of every note with the same id. In the resulting collection, in storage and in memory,
  the matching note is the edited note with \<open>updatedAt = now\<close> and every other note is as
  before; when no note has that id the collection is unchanged.
\<close>

theorem card_update_replaces:
  assumes "renders s" "NoteCard_effect selected n debouncedNote now = Some u"
  shows "u = debouncedNote\<lparr>updatedAt := now\<rparr> \<and>
    (\<exists>s'. card_update s selected n debouncedNote now = Inr s' \<and>
       persisted s' =
         map (\<lambda>m. if note_id m = note_id debouncedNote then debouncedNote\<lparr>updatedAt := now\<rparr> else m)
           (objects (the_notes s)) \<and>
       the_notes s' = map Obj (persisted s') \<and>
       (note_id debouncedNote \<notin> note_id ` set (objects (the_notes s)) \<longrightarrow>
          the_notes s' = the_notes s))"
proof -
  let ?ms = "objects (the_notes s)"
  have obj: "list_all is_Obj (the_notes s)" using assms(1) by (simp add: renders_def)
  have u: "u = debouncedNote\<lparr>updatedAt := now\<rparr>"
    using assms(2) by (simp add: NoteCard_effect_def split: if_splits)
  define r where "r = map (\<lambda>m. if note_id m = note_id debouncedNote then u else m) ?ms"
  have idu: "note_id u = note_id debouncedNote" by (simp add: u)
  have fn: "updateNote_mutationFn (the_notes s) u = Inr (map Obj r)"
    using obj update_map_objects[OF obj, of "note_id u" u]
    by (simp add: updateNote_mutationFn_def idu r_def)
  have rr: "map reread (map Obj r) = map Obj r"
    by (rule reread_objects) (rule all_Obj_map)
  define s' where
    "s' = s\<lparr>localStorage := Some (JSON_stringify (map Obj r)), data := Some (map Obj r)\<rparr>"
  have step: "card_update s selected n debouncedNote now = Inr s'"
    using write_refetch[of "map Obj r" s]
    by (simp add: card_update_def assms(2) updateNote_mutate_def fn s'_def rr del: map_map)
  have "localStorage s' = Some (JSON_stringify (map Obj r))" by (simp add: s'_def)
  then have "persisted s' = objects (map Obj r)" by (rule persisted_written)
  then have per: "persisted s' = r" by (simp add: objects_Obj)
  have mem: "the_notes s' = map Obj r"
    by (simp add: s'_def the_notes_update)
  have same: "the_notes s' = the_notes s"
    if "note_id debouncedNote \<notin> note_id ` set ?ms"
    using map_unchanged[OF that, of u] mem all_Obj_objects[OF obj] by (simp add: r_def)
  show ?thesis
    using u step per mem same by (simp add: r_def)
qed

theorem card_update_replaces_witness:
  "renders (loaded [noteA, noteB]) \<and>
   NoteCard_effect (Some noteB) noteB (noteB\<lparr>content := ''edited''\<rparr>) ''2025-04-01T08:00:00.000Z'' =
     Some (noteB\<lparr>content := ''edited'', updatedAt := ''2025-04-01T08:00:00.000Z''\<rparr>) \<and>
   (\<exists>s'. card_update (loaded [noteA, noteB]) (Some noteB) noteB (noteB\<lparr>content := ''edited''\<rparr>)
            ''2025-04-01T08:00:00.000Z'' = Inr s' \<and>
         persisted s' = [noteA, noteB\<lparr>content := ''edited'', updatedAt := ''2025-04-01T08:00:00.000Z''\<rparr>]) \<and>
   renders (loaded [noteA]) \<and>
   note_id noteB \<notin> note_id ` set (objects (the_notes (loaded [noteA]))) \<and>
   (\<exists>s'. card_update (loaded [noteA]) (Some noteB) noteB (noteB\<lparr>content := ''edited''\<rparr>)
            ''2025-04-01T08:00:00.000Z'' = Inr s' \<and>
         the_notes s' = the_notes (loaded [noteA]))"
proof -
  have n: "the_notes (loaded [noteA, noteB]) = [Obj noteA, Obj noteB]"
    by (simp add: loaded_notes)
  have n1: "the_notes (loaded [noteA]) = [Obj noteA]"
    by (simp add: loaded_notes)
  have a: "renders (loaded [noteA, noteB])"
    by (simp add: renders_def n)
  have a1: "renders (loaded [noteA])"
    by (simp add: renders_def n1)
  have b: "NoteCard_effect (Some noteB) noteB (noteB\<lparr>content := ''edited''\<rparr>) ''2025-04-01T08:00:00.000Z'' =
     Some (noteB\<lparr>content := ''edited'', updatedAt := ''2025-04-01T08:00:00.000Z''\<rparr>)"
    by (simp add: NoteCard_effect_def noteB_def)
  have ids: "note_id noteA \<noteq> note_id noteB" by (simp add: noteA_def noteB_def)
  have one: "\<exists>s'. card_update (loaded [noteA, noteB]) (Some noteB) noteB (noteB\<lparr>content := ''edited''\<rparr>)
            ''2025-04-01T08:00:00.000Z'' = Inr s' \<and>
         persisted s' = [noteA, noteB\<lparr>content := ''edited'', updatedAt := ''2025-04-01T08:00:00.000Z''\<rparr>]"
    using card_update_replaces[OF a b] ids by (auto simp: n)
  have two: "\<exists>s'. card_update (loaded [noteA]) (Some noteB) noteB (noteB\<lparr>content := ''edited''\<rparr>)
            ''2025-04-01T08:00:00.000Z'' = Inr s' \<and>
         the_notes s' = the_notes (loaded [noteA])"
    using card_update_replaces[OF a1 b] ids by (auto simp: n1)
  show ?thesis
    using a a1 b one two ids by (simp add: n1)
qed

lemma draft_effect_guard:
  "trim (title (newNote s)) = [] \<Longrightarrow> draft_effect s uuid now1 now2 = Inr s"
  by (simp add: draft_effect_def)

lemma handleSave_cancel:
  "trim (title (newNote s)) = [] \<Longrightarrow>
   handleSave s uuid now1 now2 = setIsModalOpen False s uuid now1 now2"
  by (simp add: handleSave_def setIsModalOpen_def)

text \<open>
  Claim C1 says that no finalized note with an empty trimmed title is ever written to
  storage. The dialog guards its writes with \<^verbatim>\<open>newNote.title.trim()\<close> (the draft effect
  and \<^verbatim>\<open>handleSave\<close>); the card editor has no such guard. Clearing the title of the
  stored note \<open>noteA\<close> in the card editor writes it with the empty title.
\<close>

theorem card_update_empty_title:
  "trim (title noteA) \<noteq> [] \<and>
   (\<exists>s'. card_update (loaded [noteA]) (Some noteA) noteA (noteA\<lparr>title := []\<rparr>) ''2025-04-01T08:00:00.000Z''
           = Inr s' \<and>
         persisted s' = [noteA\<lparr>title := [], updatedAt := ''2025-04-01T08:00:00.000Z''\<rparr>] \<and>
         map (\<lambda>m. trim (title m)) (persisted s') = [[]])"
proof -
  define u where "u = noteA\<lparr>title := [], updatedAt := ''2025-04-01T08:00:00.000Z''\<rparr>"
  define s' where "s' = (loaded [noteA])\<lparr>localStorage := Some (JSON_stringify [Obj u]),
      data := Some [Obj u]\<rparr>"
  have step: "card_update (loaded [noteA]) (Some noteA) noteA (noteA\<lparr>title := []\<rparr>)
      ''2025-04-01T08:00:00.000Z'' = Inr s'"
    using write_refetch[of "[Obj u]" "loaded [noteA]"]
    by (simp add: card_update_def NoteCard_effect_def updateNote_mutate_def
        updateNote_mutationFn_def loaded_notes noteA_def u_def s'_def)
  have "localStorage s' = Some (JSON_stringify [Obj u])" by (simp add: s'_def)
  then have "persisted s' = objects [Obj u]" by (rule persisted_written)
  then have per: "persisted s' = [u]" by simp
  have t: "trim (title noteA) \<noteq> []" "trim (title u) = []"
    by (simp_all add: noteA_def u_def trim_def isWhiteSpace_def)
  show ?thesis
    using step per t by (simp add: u_def)
qed


end
